theory Spec2Isabelle
  imports
    Complex_Main
    "HOL-Library.Char_ord"
    "HOL-Library.List_Lexorder"
    "HOL-Library.Multiset"
begin

section \<open>Exceptions\<close>

text \<open>
  The notebook raises and catches instances of Python's \<open>Exception\<close> class. Each
  constructor is one such exception; \<open>LibraryError\<close> carries the message of an
  exception raised inside a library call (mesh loading, sampling, tensor code).
  A function that can raise returns \<open>exn + 'a\<close>, with \<open>Inl\<close> for the raise.
  Interrupts of the interpreter (\<open>KeyboardInterrupt\<close>, \<open>SystemExit\<close>) are not instances
  of \<open>Exception\<close> and are not part of this model.
\<close>

datatype exn =
    FileNotFoundError
  | NotADirectoryError
  | ValueError
  | IndexError
  | ZeroDivisionError
  | OverflowError
  | RuntimeError
  | LibraryError string

fun andthen :: "exn + 'a \<Rightarrow> ('a \<Rightarrow> exn + 'b) \<Rightarrow> exn + 'b" where
  "andthen (Inl e) f = Inl e"
| "andthen (Inr x) f = f x"

section \<open>The directory tree read by \<open>load_data\<close>\<close>

text \<open>
  A directory holds its entries in listing order (the order \<open>os.listdir\<close> returns
  them in). A path is the list of its components, so \<open>os.path.join\<close> of relative
  components is list append and \<open>'models/model_normalized.obj'\<close> is two components.
\<close>

datatype node = File | Dir "(string \<times> node) list"

type_synonym path = "string list"

primrec resolve :: "node \<Rightarrow> path \<Rightarrow> node option" where
  "resolve n [] = Some n"
| "resolve n (c # cs) =
     (case n of
        File \<Rightarrow> None
      | Dir es \<Rightarrow> (case map_of es c of None \<Rightarrow> None | Some m \<Rightarrow> resolve m cs))"

definition isdir :: "node \<Rightarrow> path \<Rightarrow> bool" where
  "isdir fs p = (case resolve fs p of Some (Dir es) \<Rightarrow> True | _ \<Rightarrow> False)"

definition isfile :: "node \<Rightarrow> path \<Rightarrow> bool" where
  "isfile fs p = (case resolve fs p of Some File \<Rightarrow> True | _ \<Rightarrow> False)"

definition listdir :: "node \<Rightarrow> path \<Rightarrow> exn + string list" where
  "listdir fs p =
     (case resolve fs p of
        None \<Rightarrow> Inl FileNotFoundError
      | Some File \<Rightarrow> Inl NotADirectoryError
      | Some (Dir es) \<Rightarrow> Inr (map fst es))"

text \<open>The names a directory lists (none for anything else); used in the proofs only.\<close>

definition entries :: "node \<Rightarrow> path \<Rightarrow> string list" where
  "entries fs p = (case resolve fs p of Some (Dir es) \<Rightarrow> map fst es | _ \<Rightarrow> [])"

text \<open>Every directory of the tree lists each name once, as a file system does.\<close>

fun wf_node :: "node \<Rightarrow> bool" where
  "wf_node File = True"
| "wf_node (Dir es) = (distinct (map fst es) \<and> list_all (\<lambda>e. wf_node (snd e)) es)"

section \<open>\<open>load_data\<close>\<close>

text \<open>
  A Python \<open>dict\<close> keeps its keys in insertion order; \<open>d[k] = v\<close> overwrites the
  value of a key that is present, in place, and appends the pair otherwise.
\<close>

fun dict_set :: "('k \<times> 'v) list \<Rightarrow> 'k \<Rightarrow> 'v \<Rightarrow> ('k \<times> 'v) list" where
  "dict_set [] k v = [(k, v)]"
| "dict_set ((k', v') # d) k v =
     (if k' = k then (k, v) # d else (k', v') # dict_set d k v)"

definition model_path :: "path \<Rightarrow> string \<Rightarrow> path" where
  "model_path dir_path models = dir_path @ [models, ''models'', ''model_normalized.obj'']"

text \<open>The inner loop \<open>for models in os.listdir(dir_path)\<close>.\<close>

primrec scan_models ::
  "node \<Rightarrow> path \<Rightarrow> nat \<Rightarrow> string list \<Rightarrow> path list \<times> nat list \<Rightarrow> path list \<times> nat list"
where
  "scan_models fs dir_path idx [] acc = acc"
| "scan_models fs dir_path idx (models # rest) acc =
     (let model_directory = model_path dir_path models in
      scan_models fs dir_path idx rest
        (if isfile fs model_directory
         then (fst acc @ [model_directory], snd acc @ [idx])
         else acc))"

text \<open>
  The outer loop \<open>for idx, directory in enumerate(sorted(os.listdir(root_dir)))\<close>,
  over the enumerated names; the state is \<open>(file_paths, labels, label_map)\<close>.
\<close>

primrec load_data_loop ::
  "node \<Rightarrow> path \<Rightarrow> (nat \<times> string) list \<Rightarrow>
   path list \<times> nat list \<times> (string \<times> nat) list \<Rightarrow>
   exn + path list \<times> nat list \<times> (string \<times> nat) list"
where
  "load_data_loop fs root_dir [] st = Inr st"
| "load_data_loop fs root_dir (e # rest) st =
     (let idx = fst e; directory = snd e; dir_path = root_dir @ [directory] in
      if isdir fs dir_path then
        (case listdir fs dir_path of
           Inl err \<Rightarrow> Inl err
         | Inr ms \<Rightarrow>
             (let found = scan_models fs dir_path idx ms (fst st, fst (snd st))
              in load_data_loop fs root_dir rest
                   (fst found, snd found, dict_set (snd (snd st)) directory idx)))
      else load_data_loop fs root_dir rest st)"

text \<open>
  The mesh files found under one category directory, in listing order; used in the
  proofs only.
\<close>

definition category_files :: "node \<Rightarrow> path \<Rightarrow> string \<Rightarrow> path list" where
  "category_files fs root_dir d =
     filter (isfile fs) (map (model_path (root_dir @ [d])) (entries fs (root_dir @ [d])))"

definition load_data ::
  "node \<Rightarrow> path \<Rightarrow> exn + path list \<times> nat list \<times> (string \<times> nat) list" where
  "load_data fs root_dir =
     (case listdir fs root_dir of
        Inl err \<Rightarrow> Inl err
      | Inr names \<Rightarrow> load_data_loop fs root_dir (enumerate 0 (sort names)) ([], [], []))"

section \<open>Python lists\<close>

text \<open>\<open>xs[i]\<close>: a negative index counts from the end, an index out of py_range raises.\<close>

definition py_index :: "'a list \<Rightarrow> int \<Rightarrow> exn + 'a" where
  "py_index xs i =
     (if 0 \<le> i \<and> i < int (length xs) then Inr (xs ! nat i)
      else if - int (length xs) \<le> i \<and> i < 0 then Inr (xs ! nat (int (length xs) + i))
      else Inl IndexError)"

text \<open>\<open>xs.index(v)\<close>: the first position of \<open>v\<close>, \<open>ValueError\<close> when there is none.\<close>

fun list_index :: "'a list \<Rightarrow> 'a \<Rightarrow> exn + nat" where
  "list_index [] v = Inl ValueError"
| "list_index (x # xs) v =
     (if x = v then Inr 0 else andthen (list_index xs v) (\<lambda>k. Inr (Suc k)))"

text \<open>
  The inverse lookup of \<open>predict_3d_model\<close>:
  \<open>list(label_map.keys())[list(label_map.values()).index(i)]\<close>.
\<close>

definition label_of_index :: "(string \<times> nat) list \<Rightarrow> nat \<Rightarrow> exn + string" where
  "label_of_index label_map i =
     andthen (list_index (map snd label_map) i)
       (\<lambda>k. py_index (map fst label_map) (int k))"

section \<open>\<open>ShapeNetDataset\<close>\<close>

text \<open>
  A point cloud is the list of its rows, each row a point of three coordinates. Tensor
  entries are taken as reals; the claims use shapes and data flow only. The mesh library
  is a parameter: \<open>trimesh_load\<close> reads a mesh file and \<open>mesh_sample\<close> is one call of
  \<open>mesh.sample(count)\<close>; each may raise.
\<close>

type_synonym point = "real \<times> real \<times> real"

record 'mesh trimesh =
  trimesh_load :: "path \<Rightarrow> exn + 'mesh"
  mesh_sample :: "'mesh \<Rightarrow> nat \<Rightarrow> exn + point list"

record ShapeNetDataset =
  file_paths :: "path list"
  labels :: "nat list"

definition len_dataset :: "ShapeNetDataset \<Rightarrow> nat" where
  "len_dataset ds = length (file_paths ds)"


section \<open>\<open>ThreeDClassifier\<close>\<close>

record linear =
  in_features :: nat
  out_features :: nat
  weight :: "nat \<Rightarrow> nat \<Rightarrow> real"
  bias :: "nat \<Rightarrow> real"

definition Linear :: "nat \<Rightarrow> nat \<Rightarrow> (nat \<Rightarrow> nat \<Rightarrow> real) \<Rightarrow> (nat \<Rightarrow> real) \<Rightarrow> linear" where
  "Linear n_in n_out w b =
     \<lparr>in_features = n_in, out_features = n_out, weight = w, bias = b\<rparr>"

text \<open>A linear layer rejects an input whose length is not \<open>in_features\<close>.\<close>

definition linear_forward :: "linear \<Rightarrow> real list \<Rightarrow> exn + real list" where
  "linear_forward l x =
     (if length x \<noteq> in_features l then Inl RuntimeError
      else Inr (map (\<lambda>j. (\<Sum>i<in_features l. weight l j i * x ! i) + bias l j)
                  [0..<out_features l]))"

definition relu :: "real list \<Rightarrow> real list" where
  "relu x = map (max 0) x"

definition log_softmax :: "real list \<Rightarrow> real list" where
  "log_softmax x = map (\<lambda>v. v - ln (sum_list (map exp x))) x"

record classifier =
  fc1 :: linear
  fc2 :: linear
  fc3 :: linear
  dropout_p :: real
  training :: bool

text \<open>
  \<open>__init__\<close>; the initial weights of layer \<open>k\<close> are the parameters \<open>w k\<close> and \<open>b k\<close>.
\<close>

definition ThreeDClassifier ::
  "nat \<Rightarrow> real \<Rightarrow> (nat \<Rightarrow> nat \<Rightarrow> nat \<Rightarrow> real) \<Rightarrow> (nat \<Rightarrow> nat \<Rightarrow> real) \<Rightarrow> classifier" where
  "ThreeDClassifier num_classes dropout_prob w b =
     \<lparr>fc1 = Linear (1024 * 3) 512 (w 1) (b 1),
      fc2 = Linear 512 256 (w 2) (b 2),
      fc3 = Linear 256 num_classes (w 3) (b 3),
      dropout_p = dropout_prob,
      training = True\<rparr>"

definition eval_mode :: "classifier \<Rightarrow> classifier" where
  "eval_mode m = m\<lparr>training := False\<rparr>"

text \<open>\<open>x.reshape(x.size(0), -1)\<close> turns each item of the batch into one row.\<close>

definition flatten :: "point list \<Rightarrow> real list" where
  "flatten ps = concat (map (\<lambda>(x, y, z). [x, y, z]) ps)"

text \<open>
  Dropout is the identity in evaluation mode; in training mode it applies a random noise,
  the parameter \<open>noise\<close>.
\<close>

definition dropout :: "(real list \<Rightarrow> real list) \<Rightarrow> classifier \<Rightarrow> real list \<Rightarrow> real list" where
  "dropout noise m x = (if training m then noise x else x)"

definition forward_row ::
  "(real list \<Rightarrow> real list) \<Rightarrow> classifier \<Rightarrow> real list \<Rightarrow> exn + real list" where
  "forward_row noise m x =
     andthen (linear_forward (fc1 m) x) (\<lambda>h1.
     andthen (linear_forward (fc2 m) (dropout noise m (relu h1))) (\<lambda>h2.
     andthen (linear_forward (fc3 m) (dropout noise m (relu h2))) (\<lambda>h3.
     Inr (log_softmax h3))))"

primrec map_exn :: "('a \<Rightarrow> exn + 'b) \<Rightarrow> 'a list \<Rightarrow> exn + 'b list" where
  "map_exn f [] = Inr []"
| "map_exn f (x # xs) =
     andthen (f x) (\<lambda>y. andthen (map_exn f xs) (\<lambda>ys. Inr (y # ys)))"

definition forward ::
  "(real list \<Rightarrow> real list) \<Rightarrow> classifier \<Rightarrow> point list list \<Rightarrow> exn + real list list" where
  "forward noise m x =
     (if x = [] then Inl RuntimeError
      else map_exn (forward_row noise m) (map flatten x))"

section \<open>\<open>predict_3d_model\<close>\<close>

text \<open>\<open>torch.max(outputs, 1)\<close> on one row: a position of its maximum.\<close>

fun argmax :: "real list \<Rightarrow> exn + nat" where
  "argmax [] = Inl RuntimeError"
| "argmax [x] = Inr 0"
| "argmax (x # y # ys) =
     andthen (argmax (y # ys)) (\<lambda>k. if (y # ys) ! k \<le> x then Inr 0 else Inr (Suc k))"

text \<open>\<open>predicted_idx.item()\<close> needs a tensor of one element.\<close>

fun item :: "'a list \<Rightarrow> exn + 'a" where
  "item [x] = Inr x"
| "item xs = Inl RuntimeError"

text \<open>What the notebook prints, one constructor for each \<open>print\<close> statement used.\<close>

datatype pyfloat = NaN | NegInf | Finite real | PosInf

datatype line =
    NoCheckpointFound string
  | LoadedCheckpoint string int
  | EpochReport int pyfloat pyfloat
  | ValLossDecreased pyfloat pyfloat
  | ErrorOccurred exn

text \<open>The body of the \<open>try\<close> block.\<close>

definition predict_try ::
  "'mesh trimesh \<Rightarrow> classifier \<Rightarrow> path \<Rightarrow> (string \<times> nat) list \<Rightarrow> exn + string" where
  "predict_try lib model file_path label_map =
     andthen (trimesh_load lib file_path) (\<lambda>mesh.
     andthen (mesh_sample lib mesh 1024) (\<lambda>points.
     andthen (forward id model [points]) (\<lambda>outputs.
     andthen (map_exn argmax outputs) (\<lambda>predicted_idx.
     andthen (item predicted_idx) (\<lambda>i.
     andthen (label_of_index label_map i) (\<lambda>predicted_label.
     Inr predicted_label))))))"

text \<open>
  \<open>predict_3d_model\<close> returns the label (\<open>None\<close> after a caught exception), the model,
  now in evaluation mode, and the lines printed.
\<close>

definition predict_3d_model ::
  "'mesh trimesh \<Rightarrow> classifier \<Rightarrow> path \<Rightarrow> (string \<times> nat) list \<Rightarrow>
   exn + string option \<times> classifier \<times> line list" where
  "predict_3d_model lib model file_path label_map =
     (let model = eval_mode model in
      case predict_try lib model file_path label_map of
        Inr predicted_label \<Rightarrow> Inr (Some predicted_label, model, [])
      | Inl e \<Rightarrow> Inr (None, model, [ErrorOccurred e]))"

section \<open>Python floats\<close>

text \<open>
  A loss is a Python float: a finite value (taken as a real), an infinity or NaN.
  \<open>float_lt\<close> is Python's \<open><\<close>, which is false whenever an operand is NaN.
\<close>

fun float_lt :: "pyfloat \<Rightarrow> pyfloat \<Rightarrow> bool" where
  "float_lt NaN y = False"
| "float_lt x NaN = False"
| "float_lt NegInf NegInf = False"
| "float_lt NegInf y = True"
| "float_lt x NegInf = False"
| "float_lt PosInf y = False"
| "float_lt (Finite a) PosInf = True"
| "float_lt (Finite a) (Finite b) = (a < b)"

fun float_add :: "pyfloat \<Rightarrow> pyfloat \<Rightarrow> pyfloat" where
  "float_add NaN y = NaN"
| "float_add x NaN = NaN"
| "float_add PosInf NegInf = NaN"
| "float_add NegInf PosInf = NaN"
| "float_add PosInf y = PosInf"
| "float_add x PosInf = PosInf"
| "float_add NegInf y = NegInf"
| "float_add x NegInf = NegInf"
| "float_add (Finite a) (Finite b) = Finite (a + b)"

text \<open>\<open>total / len(loader)\<close>: dividing by the length of an empty loader raises.\<close>

definition float_div_len :: "pyfloat \<Rightarrow> nat \<Rightarrow> exn + pyfloat" where
  "float_div_len x n =
     (if n = 0 then Inl ZeroDivisionError
      else Inr (case x of Finite a \<Rightarrow> Finite (a / real n) | y \<Rightarrow> y))"

section \<open>Checkpoints\<close>

record ('sd, 'od) checkpoint =
  epoch :: int
  state_dict :: 'sd
  best_val_loss :: pyfloat
  optimizer :: 'od

text \<open>
  The files \<open>torch.save\<close> and \<open>torch.load\<close> work on, by the path string given to them:
  a file holds a pickled checkpoint or something else.
\<close>

datatype ('sd, 'od) content = Pickled "('sd, 'od) checkpoint" | Other

type_synonym ('sd, 'od) files = "string \<Rightarrow> ('sd, 'od) content option"

text \<open>\<open>os.path.join\<close> of two path strings, with \<open>/\<close> as the separator.\<close>

definition path_join :: "string \<Rightarrow> string \<Rightarrow> string" where
  "path_join a b =
     (if b \<noteq> [] \<and> hd b = CHR ''/'' then b
      else if a = [] \<or> last a = CHR ''/'' then a @ b
      else a @ ''/'' @ b)"

text \<open>
  \<open>save_checkpoint\<close> writes the record to \<open>./checkpoints/<filename>\<close>; creating the
  directory first (\<open>exist_ok=True\<close>) changes no file.
\<close>

definition save_checkpoint ::
  "('sd, 'od) checkpoint \<Rightarrow> string \<Rightarrow> ('sd, 'od) files \<Rightarrow> ('sd, 'od) files" where
  "save_checkpoint state filename disk =
     disk(path_join ''./checkpoints'' filename \<mapsto> Pickled state)"

definition torch_load :: "('sd, 'od) files \<Rightarrow> string \<Rightarrow> exn + ('sd, 'od) checkpoint" where
  "torch_load disk filepath =
     (case disk filepath of
        None \<Rightarrow> Inl FileNotFoundError
      | Some Other \<Rightarrow> Inl (LibraryError ''UnpicklingError'')
      | Some (Pickled c) \<Rightarrow> Inr c)"

text \<open>
  The training library is a parameter. \<open>train_step\<close> is one pass of the body of the
  training loop (zero the gradients, forward, loss, backward, optimizer step) and gives
  \<open>loss.item()\<close>; \<open>val_step\<close> is one pass of the body of the validation loop.
\<close>

record ('m, 'o, 'sd, 'od, 'b) torch =
  adam :: "'m \<Rightarrow> 'o"
  to_train :: "'m \<Rightarrow> 'm"
  to_eval :: "'m \<Rightarrow> 'm"
  train_step :: "'m \<Rightarrow> 'o \<Rightarrow> 'b \<Rightarrow> exn + 'm \<times> 'o \<times> pyfloat"
  val_step :: "'m \<Rightarrow> 'b \<Rightarrow> exn + pyfloat"
  model_state_dict :: "'m \<Rightarrow> 'sd"
  optimizer_state_dict :: "'o \<Rightarrow> 'od"
  model_load_state_dict :: "'m \<Rightarrow> 'sd \<Rightarrow> exn + 'm"
  optimizer_load_state_dict :: "'o \<Rightarrow> 'od \<Rightarrow> exn + 'o"

text \<open>
  \<open>load_checkpoint\<close> returns the checkpoint (\<open>None\<close> when there is no file), the model
  and the optimizer as it leaves them, and the lines printed. The optimizer is optional
  (\<open>optimizer=None\<close>); moving the model to the device does not change its parameters.
\<close>

definition load_checkpoint ::
  "('m, 'o, 'sd, 'od, 'b) torch \<Rightarrow> string \<Rightarrow> 'm \<Rightarrow> 'o option \<Rightarrow> ('sd, 'od) files \<Rightarrow>
   exn + ('sd, 'od) checkpoint option \<times> 'm \<times> 'o option \<times> line list" where
  "load_checkpoint lib filepath model opt disk =
     (if disk filepath = None then Inr (None, model, opt, [NoCheckpointFound filepath])
      else
        andthen (torch_load disk filepath) (\<lambda>ckpt.
        andthen (model_load_state_dict lib model (state_dict ckpt)) (\<lambda>model.
        andthen (case opt of
                   None \<Rightarrow> Inr None
                 | Some opt \<Rightarrow>
                     andthen (optimizer_load_state_dict lib opt (optimizer ckpt))
                       (\<lambda>opt. Inr (Some opt))) (\<lambda>opt.
        Inr (Some ckpt, model, opt, [LoadedCheckpoint filepath (epoch ckpt)])))))"

section \<open>\<open>train_model\<close>\<close>

text \<open>
  The state of the training loop: the model, the optimizer, the local \<open>best_val_loss\<close>,
  the files, the lines printed so far and the calls of \<open>torch.save\<close> made so far
  (path and record, oldest first). A loader is the list of its batches.
\<close>

record ('m, 'o, 'sd, 'od) tstate =
  cur_model :: 'm
  cur_optimizer :: 'o
  cur_best :: pyfloat
  disk_of :: "('sd, 'od) files"
  printed :: "line list"
  saved :: "(string \<times> ('sd, 'od) checkpoint) list"

primrec train_batches ::
  "('m, 'o, 'sd, 'od, 'b) torch \<Rightarrow> 'b list \<Rightarrow> 'm \<times> 'o \<times> pyfloat \<Rightarrow> exn + 'm \<times> 'o \<times> pyfloat"
where
  "train_batches lib [] st = Inr st"
| "train_batches lib (batch # rest) st =
     (case st of (model, opt, total_train_loss) \<Rightarrow>
        andthen (train_step lib model opt batch) (\<lambda>(model, opt, loss).
        train_batches lib rest (model, opt, float_add total_train_loss loss)))"

primrec val_batches ::
  "('m, 'o, 'sd, 'od, 'b) torch \<Rightarrow> 'm \<Rightarrow> 'b list \<Rightarrow> pyfloat \<Rightarrow> exn + pyfloat"
where
  "val_batches lib model [] total_val_loss = Inr total_val_loss"
| "val_batches lib model (batch # rest) total_val_loss =
     andthen (val_step lib model batch) (\<lambda>loss.
     val_batches lib model rest (float_add total_val_loss loss))"

text \<open>
  The end of the body of \<open>for epoch in range(num_epochs)\<close>: print the losses of the
  epoch, then check the validation loss and save a checkpoint when it decreased.
\<close>

definition check_val_loss ::
  "('m, 'o, 'sd, 'od, 'b) torch \<Rightarrow> string \<Rightarrow> int \<Rightarrow> ('m, 'o, 'sd, 'od) tstate \<Rightarrow>
   'm \<Rightarrow> 'o \<Rightarrow> pyfloat \<Rightarrow> pyfloat \<Rightarrow> ('m, 'o, 'sd, 'od) tstate" where
  "check_val_loss lib save_path ep st model opt average_train_loss average_val_loss =
     (let st1 = st\<lparr>cur_model := model, cur_optimizer := opt,
                   printed := printed st @
                     [EpochReport (ep + 1) average_train_loss average_val_loss]\<rparr>
      in
        if float_lt average_val_loss (cur_best st) then
          (let state = \<lparr>epoch = ep + 1,
                        state_dict = model_state_dict lib model,
                        best_val_loss = average_val_loss,
                        optimizer = optimizer_state_dict lib opt\<rparr>
           in st1\<lparr>cur_best := average_val_loss,
                  disk_of := save_checkpoint state save_path (disk_of st),
                  printed := printed st1 @ [ValLossDecreased (cur_best st) average_val_loss],
                  saved := saved st @ [(path_join ''./checkpoints'' save_path, state)]\<rparr>)
        else st1)"

text \<open>One pass of the body of \<open>for epoch in range(num_epochs)\<close>.\<close>

definition train_epoch ::
  "('m, 'o, 'sd, 'od, 'b) torch \<Rightarrow> 'b list \<Rightarrow> 'b list \<Rightarrow> string \<Rightarrow> int \<Rightarrow>
   ('m, 'o, 'sd, 'od) tstate \<Rightarrow> exn + ('m, 'o, 'sd, 'od) tstate" where
  "train_epoch lib train_loader val_loader save_path ep st =
     andthen (train_batches lib train_loader
                (to_train lib (cur_model st), cur_optimizer st, Finite 0))
       (\<lambda>(model, opt, total_train_loss).
     andthen (val_batches lib (to_eval lib model) val_loader (Finite 0))
       (\<lambda>total_val_loss.
     andthen (float_div_len total_val_loss (length val_loader))
       (\<lambda>average_val_loss.
     andthen (float_div_len total_train_loss (length train_loader))
       (\<lambda>average_train_loss.
     Inr (check_val_loss lib save_path ep st (to_eval lib model) opt
            average_train_loss average_val_loss)))))"

primrec train_loop ::
  "('m, 'o, 'sd, 'od, 'b) torch \<Rightarrow> 'b list \<Rightarrow> 'b list \<Rightarrow> string \<Rightarrow> int list \<Rightarrow>
   ('m, 'o, 'sd, 'od) tstate \<Rightarrow> exn + ('m, 'o, 'sd, 'od) tstate" where
  "train_loop lib train_loader val_loader save_path [] st = Inr st"
| "train_loop lib train_loader val_loader save_path (ep # rest) st =
     andthen (train_epoch lib train_loader val_loader save_path ep st)
       (train_loop lib train_loader val_loader save_path rest)"

text \<open>\<open>range(num_epochs)\<close>, empty when \<open>num_epochs\<close> is not positive.\<close>

definition py_range :: "int \<Rightarrow> int list" where
  "py_range n = map int [0..<nat n]"

definition train_model ::
  "('m, 'o, 'sd, 'od, 'b) torch \<Rightarrow> 'm \<Rightarrow> 'b list \<Rightarrow> 'b list \<Rightarrow> int \<Rightarrow> string \<Rightarrow>
   ('sd, 'od) files \<Rightarrow> exn + ('m, 'o, 'sd, 'od) tstate" where
  "train_model lib model train_loader val_loader num_epochs save_path disk =
     train_loop lib train_loader val_loader save_path (py_range num_epochs)
       \<lparr>cur_model = model, cur_optimizer = adam lib model, cur_best = PosInf,
        disk_of = disk, printed = [], saved = []\<rparr>"

text \<open>
  The average validation losses of the epochs completed, oldest first, as the epoch
  reports printed give them.
\<close>

fun val_losses :: "line list \<Rightarrow> pyfloat list" where
  "val_losses [] = []"
| "val_losses (EpochReport ep average_train_loss average_val_loss # rest) =
     average_val_loss # val_losses rest"
| "val_losses (other # rest) = val_losses rest"

section \<open>Double precision arithmetic\<close>

text \<open>
  The sizes of the splits are ceilings of floating point products, so the fractions
  \<open>test_size\<close> and \<open>val_size\<close> are modelled as IEEE doubles with their rounding:
  \<open>Double m e\<close> is the finite value \<open>m * 2 ^ e\<close>. \<open>fl m e\<close> rounds the exact value
  \<open>m * 2 ^ e\<close> to the nearest double, ties to even: 53 bits of mantissa, no bit below
  \<open>2 ^ -1074\<close>, an infinity from \<open>2 ^ 1024\<close> on.
\<close>

datatype double = DNaN | DPosInf | DNegInf | Double int int

text \<open>The number of bits of a positive integer.\<close>

function bits :: "int \<Rightarrow> int" where
  "bits a = (if a \<le> 0 then 0 else 1 + bits (a div 2))"
  by pat_completeness auto
termination
  by (relation "measure nat") auto

declare bits.simps [simp del]

text \<open>\<open>a / 2 ^ s\<close> rounded to the nearest integer, a tie to the even one.\<close>

definition round_shift :: "int \<Rightarrow> nat \<Rightarrow> int" where
  "round_shift a s =
     (if s = 0 then a
      else
        (let q = a div 2 ^ s; r = a mod 2 ^ s; half = 2 ^ (s - 1) in
         if r > half \<or> (r = half \<and> odd q) then q + 1 else q))"

definition fl :: "int \<Rightarrow> int \<Rightarrow> double" where
  "fl m e =
     (if m = 0 then Double 0 0
      else
        (let a = \<bar>m\<bar>;
             s = max (bits a - 53) (- 1074 - e);
             q = (if s \<le> 0 then a else round_shift a (nat s));
             e' = (if s \<le> 0 then e else e + s)
         in if bits q + e' > 1024
            then (if m > 0 then DPosInf else DNegInf)
            else Double (sgn m * q) e'))"

text \<open>
  The quotient of \<open>m1 * 2 ^ e1\<close> by \<open>m2 * 2 ^ e2\<close> (\<open>m2\<close> not zero), rounded once: the
  integer quotient is taken with at least 55 bits and a last bit that records a
  remainder, so that \<open>fl\<close> rounds it as it would the exact quotient.
\<close>

definition div_round :: "int \<Rightarrow> int \<Rightarrow> int \<Rightarrow> int \<Rightarrow> double" where
  "div_round m1 e1 m2 e2 =
     (if m1 = 0 then Double 0 0
      else
        (let a = \<bar>m1\<bar>; b = \<bar>m2\<bar>;
             k = nat (max 0 (55 + bits b - bits a));
             q = (a * 2 ^ k) div b;
             r = (a * 2 ^ k) mod b
         in fl (sgn m1 * sgn m2 * (2 * q + (if r = 0 then 0 else 1)))
              (e1 - e2 - int k - 1)))"

text \<open>The double a decimal literal with the value \<open>p / q\<close> denotes, as \<open>0.2\<close> for \<open>2 / 10\<close>.\<close>

definition double_of_ratio :: "int \<Rightarrow> int \<Rightarrow> double" where
  "double_of_ratio p q = div_round p 0 q 0"

text \<open>The conversion of a Python \<open>int\<close> (here the length of a list) to a float.\<close>

definition double_of_nat :: "nat \<Rightarrow> double" where
  "double_of_nat n = fl (int n) 0"

fun double_sgn :: "double \<Rightarrow> int" where
  "double_sgn (Double m e) = sgn m"
| "double_sgn DPosInf = 1"
| "double_sgn DNegInf = - 1"
| "double_sgn DNaN = 0"

definition signed_inf :: "int \<Rightarrow> double" where
  "signed_inf s = (if s > 0 then DPosInf else if s < 0 then DNegInf else DNaN)"

text \<open>Python's \<open>x * y\<close>, \<open>x - y\<close> and \<open>x / y\<close> on floats.\<close>

fun double_mul :: "double \<Rightarrow> double \<Rightarrow> double" where
  "double_mul (Double m1 e1) (Double m2 e2) = fl (m1 * m2) (e1 + e2)"
| "double_mul x y =
     (if x = DNaN \<or> y = DNaN then DNaN else signed_inf (double_sgn x * double_sgn y))"

fun double_sub :: "double \<Rightarrow> double \<Rightarrow> double" where
  "double_sub (Double m1 e1) (Double m2 e2) =
     (let e = min e1 e2 in fl (m1 * 2 ^ nat (e1 - e) - m2 * 2 ^ nat (e2 - e)) e)"
| "double_sub DNaN y = DNaN"
| "double_sub x DNaN = DNaN"
| "double_sub DPosInf DPosInf = DNaN"
| "double_sub DNegInf DNegInf = DNaN"
| "double_sub DPosInf y = DPosInf"
| "double_sub DNegInf y = DNegInf"
| "double_sub x DPosInf = DNegInf"
| "double_sub x DNegInf = DPosInf"

fun double_truediv :: "double \<Rightarrow> double \<Rightarrow> exn + double" where
  "double_truediv x (Double m2 e2) =
     (if m2 = 0 then Inl ZeroDivisionError
      else
        (case x of
           Double m1 e1 \<Rightarrow> Inr (div_round m1 e1 m2 e2)
         | DNaN \<Rightarrow> Inr DNaN
         | DPosInf \<Rightarrow> Inr (signed_inf (sgn m2))
         | DNegInf \<Rightarrow> Inr (signed_inf (- sgn m2))))"
| "double_truediv DNaN y = Inr DNaN"
| "double_truediv x DNaN = Inr DNaN"
| "double_truediv (Double m1 e1) y = Inr (Double 0 0)"
| "double_truediv x y = Inr DNaN"

text \<open>\<open>math.ceil\<close>, which refuses NaN and the infinities.\<close>

fun double_ceil :: "double \<Rightarrow> exn + int" where
  "double_ceil (Double m e) =
     Inr (if e \<ge> 0 then m * 2 ^ nat e else - ((- m) div 2 ^ nat (- e)))"
| "double_ceil DNaN = Inl ValueError"
| "double_ceil x = Inl OverflowError"

text \<open>The comparisons \<open>x <= 0\<close> and \<open>x >= 1\<close>, false on NaN.\<close>

fun double_le_zero :: "double \<Rightarrow> bool" where
  "double_le_zero (Double m e) = (m \<le> 0)"
| "double_le_zero DNegInf = True"
| "double_le_zero x = False"

fun double_ge_one :: "double \<Rightarrow> bool" where
  "double_ge_one (Double m e) = (if e \<ge> 0 then m \<ge> 1 else m \<ge> 2 ^ nat (- e))"
| "double_ge_one DPosInf = True"
| "double_ge_one x = False"

section \<open>\<open>create_datasets\<close>\<close>

text \<open>
  \<open>train_test_split\<close> of the learning library, for a fractional \<open>test_size\<close> and a seeded
  shuffle. A \<open>test_size\<close> outside of the open interval from 0 to 1 is refused; the test
  part has \<open>ceil(test_size * n_samples)\<close> samples, the product a float product, and the
  training part has the others; an empty training part is refused. The test part is the
  start of the permutation of the indices, the training part what follows. The
  permutation drawn for \<open>n\<close> samples with \<open>random_state=42\<close> is the parameter \<open>perm n\<close>.
\<close>

definition split_sizes :: "double \<Rightarrow> nat \<Rightarrow> exn + nat \<times> nat" where
  "split_sizes test_size n_samples =
     (if double_le_zero test_size \<or> double_ge_one test_size then Inl ValueError
      else
        andthen (double_ceil (double_mul test_size (double_of_nat n_samples))) (\<lambda>c.
        let n_test = nat c; n_train = n_samples - n_test in
        if n_train = 0 then Inl ValueError else Inr (n_train, n_test)))"

definition train_test_split ::
  "(nat \<Rightarrow> nat list) \<Rightarrow> 'a list \<Rightarrow> 'b list \<Rightarrow> double \<Rightarrow>
   exn + 'a list \<times> 'a list \<times> 'b list \<times> 'b list" where
  "train_test_split perm xs ys test_size =
     (if length xs \<noteq> length ys then Inl ValueError
      else
        andthen (split_sizes test_size (length xs)) (\<lambda>(n_train, n_test).
        let p = perm (length xs);
            test = take n_test p;
            train = take n_train (drop n_test p)
        in Inr (map (nth xs) train, map (nth xs) test, map (nth ys) train, map (nth ys) test)))"

definition create_datasets ::
  "node \<Rightarrow> (nat \<Rightarrow> nat list) \<Rightarrow> path \<Rightarrow> double \<Rightarrow> double \<Rightarrow>
   exn + ShapeNetDataset \<times> ShapeNetDataset \<times> ShapeNetDataset \<times> (string \<times> nat) list" where
  "create_datasets fs perm root_dir test_size val_size =
     andthen (load_data fs root_dir) (\<lambda>(paths, labs, label_map).
     andthen (train_test_split perm paths labs test_size)
       (\<lambda>(train_paths, test_paths, train_labels, test_labels).
     andthen (double_truediv val_size (double_sub (Double 1 0) test_size)) (\<lambda>val_fraction.
     andthen (train_test_split perm train_paths train_labels val_fraction)
       (\<lambda>(train_paths, val_paths, train_labels, val_labels).
     Inr (\<lparr>file_paths = train_paths, labels = train_labels\<rparr>,
          \<lparr>file_paths = val_paths, labels = val_labels\<rparr>,
          \<lparr>file_paths = test_paths, labels = test_labels\<rparr>,
          label_map)))))"

section \<open>Example values\<close>

text \<open>Small concrete libraries and inputs, on which the theorems below are run.\<close>

definition demo_torch :: "(nat, nat, nat, nat, pyfloat) torch" where
  "demo_torch =
     \<lparr>adam = (\<lambda>m. 0), to_train = id, to_eval = id,
      train_step = (\<lambda>m opt batch. Inr (Suc m, Suc opt, batch)),
      val_step = (\<lambda>m batch. Inr (if m = 2 then Finite 1 else batch)),
      model_state_dict = id, optimizer_state_dict = id,
      model_load_state_dict = (\<lambda>m sd. Inr sd),
      optimizer_load_state_dict = (\<lambda>opt od. Inr od)\<rparr>"

definition demo_checkpoint :: "(nat, nat) checkpoint" where
  "demo_checkpoint = \<lparr>epoch = 3, state_dict = 5, best_val_loss = Finite 1, optimizer = 6\<rparr>"

definition demo_trimesh :: "nat trimesh" where
  "demo_trimesh =
     \<lparr>trimesh_load =
        (\<lambda>p. if p = [''bad.obj''] then Inl (LibraryError ''no mesh'') else Inr 0),
      mesh_sample = (\<lambda>mesh n. Inr (replicate n (0, 0, 0)))\<rparr>"

definition demo_classifier :: classifier where
  "demo_classifier = ThreeDClassifier 2 0.3 (\<lambda>k j i. 0) (\<lambda>k j. 0)"


text \<open>
  A data set of two categories and three models, with a stray file beside the category
  directories and one model directory that holds no mesh.
\<close>

definition model_dir :: node where
  "model_dir = Dir [(''models'', Dir [(''model_normalized.obj'', File)])]"

definition demo_tree :: node where
  "demo_tree =
     Dir [(''data'',
           Dir [(''02747177'', Dir [(''m3'', model_dir), (''empty'', Dir [])]),
                (''.DS_Store'', File),
                (''02691156'', Dir [(''m1'', model_dir), (''m2'', model_dir)])])]"

definition demo_paths :: "path list" where
  "demo_paths =
     [[''data'', ''02691156'', ''m1'', ''models'', ''model_normalized.obj''],
      [''data'', ''02691156'', ''m2'', ''models'', ''model_normalized.obj''],
      [''data'', ''02747177'', ''m3'', ''models'', ''model_normalized.obj'']]"

definition demo_label_map :: "(string \<times> nat) list" where
  "demo_label_map = [(''02691156'', 1), (''02747177'', 2)]"

text \<open>
  Training runs on a library whose validation loss is the batch itself, except that it
  is 1 once the model has made two training steps: with the validation batch \<open>x\<close> the
  epochs have the average validation losses \<open>x\<close>, 1, \<open>x\<close>.
\<close>

definition demo_run ::
  "pyfloat \<Rightarrow> int \<Rightarrow> exn + (nat, nat, nat, nat) tstate" where
  "demo_run x num_epochs =
     train_model demo_torch 0 [Finite 1] [x] num_epochs ''model_checkpoint.pth'' Map.empty"

text \<open>What a run leaves: \<open>best_val_loss\<close>, the losses reported and the checkpoints saved.\<close>

definition summary ::
  "(nat, nat, nat, nat) tstate \<Rightarrow>
   pyfloat \<times> pyfloat list \<times> (string \<times> (nat, nat) checkpoint) list" where
  "summary st = (cur_best st, val_losses (printed st), saved st)"

text \<open>The sizes of the training, validation and test sets \<open>create_datasets\<close> returns.\<close>

definition sizes ::
  "ShapeNetDataset \<times> ShapeNetDataset \<times> ShapeNetDataset \<times> (string \<times> nat) list \<Rightarrow>
   nat \<times> nat \<times> nat" where
  "sizes r =
     (case r of (train_dataset, val_dataset, test_dataset, label_map) \<Rightarrow>
        (len_dataset train_dataset, len_dataset val_dataset, len_dataset test_dataset))"

text \<open>A data set of one category and ten models, split with the fractions 0.3 and 0.1.\<close>

definition ten_names :: "string list" where
  "ten_names = [''m0'', ''m1'', ''m2'', ''m3'', ''m4'', ''m5'', ''m6'', ''m7'', ''m8'', ''m9'']"

definition ten_tree :: node where
  "ten_tree = Dir [(''data'', Dir [(''c'', Dir (map (\<lambda>m. (m, model_dir)) ten_names))])]"

definition ten_paths :: "path list" where
  "ten_paths = map (model_path [''data'', ''c'']) ten_names"

definition ten_split ::
  "exn + ShapeNetDataset \<times> ShapeNetDataset \<times> ShapeNetDataset \<times> (string \<times> nat) list" where
  "ten_split =
     create_datasets ten_tree (upt 0) [''data''] (double_of_ratio 3 10) (double_of_ratio 1 10)"

definition ten_train :: ShapeNetDataset where
  "ten_train =
     \<lparr>file_paths = map (model_path [''data'', ''c'']) [''m5'', ''m6'', ''m7'', ''m8'', ''m9''],
      labels = [0, 0, 0, 0, 0]\<rparr>"

definition ten_val :: ShapeNetDataset where
  "ten_val =
     \<lparr>file_paths = map (model_path [''data'', ''c'']) [''m3'', ''m4''], labels = [0, 0]\<rparr>"

definition ten_test :: ShapeNetDataset where
  "ten_test =
     \<lparr>file_paths = map (model_path [''data'', ''c'']) [''m0'', ''m1'', ''m2''],
      labels = [0, 0, 0]\<rparr>"

section \<open>Sequencing of calls that may raise\<close>

lemma andthen_Inr_iff: "andthen r f = Inr y \<longleftrightarrow> (\<exists>x. r = Inr x \<and> f x = Inr y)"
  by (cases r) auto

lemma andthen_Inl_iff:
  "andthen r f = Inl e \<longleftrightarrow> r = Inl e \<or> (\<exists>x. r = Inr x \<and> f x = Inl e)"
  by (cases r) auto

section \<open>Loading and saving checkpoints\<close>

text \<open>
  C3. When \<open>filepath\<close> names no file, \<open>load_checkpoint\<close> prints that no checkpoint was
  found there and returns \<open>None\<close>; the model and the optimizer are the ones passed in.
\<close>

theorem load_checkpoint_missing_file:
  "disk filepath = None \<Longrightarrow>
   load_checkpoint lib filepath model opt disk =
     Inr (None, model, opt, [NoCheckpointFound filepath])"
  by (simp add: load_checkpoint_def)

theorem load_checkpoint_missing_file_witness:
  "(Map.empty :: (nat, nat) files) ''model_checkpoint.pth'' = None \<and>
   load_checkpoint demo_torch ''model_checkpoint.pth'' (7::nat) (Some (9::nat))
       (Map.empty :: (nat, nat) files) =
     Inr (None, 7, Some 9, [NoCheckpointFound ''model_checkpoint.pth''])"
  using load_checkpoint_missing_file
    [of "Map.empty :: (nat, nat) files" "''model_checkpoint.pth''" demo_torch 7 "Some 9"]
  by simp

text \<open>
  C6. A record saved with \<open>save_checkpoint\<close> under \<open>filename\<close> is read back by
  \<open>load_checkpoint\<close> from the file that was written: the call returns the saved record, so
  the same epoch number. The model, and the optimizer when one is given, are assumed to
  accept the saved state dictionaries; otherwise their \<open>load_state_dict\<close> raises.
\<close>

theorem checkpoint_roundtrips_epoch:
  assumes "model_load_state_dict lib model (state_dict state) = Inr model'"
    and "opt = None \<or> (\<exists>ob ob'. opt = Some ob \<and>
           optimizer_load_state_dict lib ob (optimizer state) = Inr ob')"
  shows "\<exists>ckpt opt' out.
           load_checkpoint lib (path_join ''./checkpoints'' filename) model opt
             (save_checkpoint state filename disk) = Inr (Some ckpt, model', opt', out) \<and>
           ckpt = state \<and> epoch ckpt = epoch state"
  using assms by (auto simp: load_checkpoint_def save_checkpoint_def torch_load_def)

theorem checkpoint_roundtrips_epoch_witness:
  "model_load_state_dict demo_torch (0::nat) (state_dict demo_checkpoint) = Inr 5 \<and>
   (\<exists>ckpt opt' out.
      load_checkpoint demo_torch (path_join ''./checkpoints'' ''model_checkpoint.pth'') 0 (Some 1)
        (save_checkpoint demo_checkpoint ''model_checkpoint.pth'' Map.empty) =
          Inr (Some ckpt, 5, opt', out) \<and>
      ckpt = demo_checkpoint \<and> epoch ckpt = epoch demo_checkpoint) \<and>
   epoch demo_checkpoint = 3"
proof -
  have h1: "model_load_state_dict demo_torch (0::nat) (state_dict demo_checkpoint) = Inr 5"
    by (simp add: demo_torch_def demo_checkpoint_def)
  have h2: "Some (1::nat) = None \<or> (\<exists>ob ob'. Some (1::nat) = Some ob \<and>
              optimizer_load_state_dict demo_torch ob (optimizer demo_checkpoint) = Inr ob')"
    by (simp add: demo_torch_def)
  have h3: "epoch demo_checkpoint = 3"
    by (simp add: demo_checkpoint_def)
  from checkpoint_roundtrips_epoch [OF h1 h2, of "''model_checkpoint.pth''" Map.empty] h1 h3
  show ?thesis by blast
qed

section \<open>Point clouds and the classifier\<close>


lemma linear_forward_ok:
  "length x = in_features l \<Longrightarrow>
   \<exists>h. linear_forward l x = Inr h \<and> length h = out_features l"
  by (simp add: linear_forward_def)

lemma forward_row_ok:
  assumes "length x = 3072" and "\<not> training m"
    and "in_features (fc1 m) = 3072" and "out_features (fc1 m) = in_features (fc2 m)"
    and "out_features (fc2 m) = in_features (fc3 m)"
  shows "\<exists>out. forward_row noise m x = Inr out \<and> length out = out_features (fc3 m)"
proof -
  obtain h1 where h1: "linear_forward (fc1 m) x = Inr h1" "length h1 = out_features (fc1 m)"
    using linear_forward_ok [of x "fc1 m"] assms by auto
  obtain h2 where h2: "linear_forward (fc2 m) (relu h1) = Inr h2"
      "length h2 = out_features (fc2 m)"
    using linear_forward_ok [of "relu h1" "fc2 m"] assms h1 by (auto simp: relu_def)
  obtain h3 where h3: "linear_forward (fc3 m) (relu h2) = Inr h3"
      "length h3 = out_features (fc3 m)"
    using linear_forward_ok [of "relu h2" "fc3 m"] assms h2 by (auto simp: relu_def)
  show ?thesis
    using h1 h2 h3 assms(2) by (simp add: forward_row_def dropout_def log_softmax_def)
qed











section \<open>Exceptions in \<open>predict_3d_model\<close>\<close>

text \<open>
  C4. Whenever a step of the \<open>try\<close> block raises an exception \<open>e\<close> (loading the mesh,
  sampling it, the forward pass, taking the maximum or looking the label up),
  \<open>predict_3d_model\<close> does not raise: it prints the exception and returns \<open>None\<close>.
\<close>

theorem predict_3d_model_catches:
  assumes "trimesh_load lib file_path = Inl e \<or>
           (\<exists>mesh. trimesh_load lib file_path = Inr mesh \<and>
              (mesh_sample lib mesh 1024 = Inl e \<or>
               (\<exists>points. mesh_sample lib mesh 1024 = Inr points \<and>
                  (forward id (eval_mode model) [points] = Inl e \<or>
                   (\<exists>outputs. forward id (eval_mode model) [points] = Inr outputs \<and>
                      (andthen (map_exn argmax outputs) item = Inl e \<or>
                       (\<exists>i. andthen (map_exn argmax outputs) item = Inr i \<and>
                          label_of_index label_map i = Inl e)))))))"
  shows "predict_3d_model lib model file_path label_map =
           Inr (None, eval_mode model, [ErrorOccurred e])"
proof -
  from assms have "predict_try lib (eval_mode model) file_path label_map = Inl e"
    unfolding predict_try_def by (auto simp: andthen_Inl_iff andthen_Inr_iff)
  then show ?thesis by (simp add: predict_3d_model_def)
qed

theorem predict_3d_model_catches_witness:
  "trimesh_load demo_trimesh [''bad.obj''] = Inl (LibraryError ''no mesh'') \<and>
   predict_3d_model demo_trimesh demo_classifier [''bad.obj''] [(''c'', 0)] =
     Inr (None, eval_mode demo_classifier, [ErrorOccurred (LibraryError ''no mesh'')])"
proof -
  have h: "trimesh_load demo_trimesh [''bad.obj''] = Inl (LibraryError ''no mesh'')"
    by (simp add: demo_trimesh_def)
  from predict_3d_model_catches
    [of demo_trimesh "[''bad.obj'']" "LibraryError ''no mesh''" demo_classifier "[(''c'', 0)]"] h
  show ?thesis by blast
qed

section \<open>The directory tree\<close>

lemma resolve_append:
  "resolve fs (p @ q) = (case resolve fs p of None \<Rightarrow> None | Some n \<Rightarrow> resolve n q)"
  by (induction p arbitrary: fs) (auto split: node.splits option.splits)

lemma wf_node_resolve: "wf_node fs \<Longrightarrow> resolve fs p = Some n \<Longrightarrow> wf_node n"
proof (induction p arbitrary: fs)
  case Nil
  then show ?case by simp
next
  case (Cons c cs)
  then show ?case
    by (auto split: node.splits option.splits dest!: map_of_SomeD simp: list_all_iff)
qed

lemma isdir_listdir: "isdir fs p \<Longrightarrow> listdir fs p = Inr (entries fs p)"
  by (auto simp: isdir_def listdir_def entries_def split: option.splits node.splits)

lemma listdir_Inr: "listdir fs p = Inr ns \<Longrightarrow> ns = entries fs p \<and> isdir fs p"
  by (auto simp: isdir_def listdir_def entries_def split: option.splits node.splits)

lemma child_in_entries:
  "resolve fs (p @ c # q) = Some n \<Longrightarrow> c \<in> set (entries fs p) \<and> isdir fs p"
  by (auto simp: resolve_append entries_def isdir_def split: option.splits node.splits
      dest!: map_of_SomeD intro: rev_image_eqI)

lemma isdir_child: "isdir fs (p @ [c]) \<Longrightarrow> c \<in> set (entries fs p)"
  using child_in_entries [of fs p c "[]"] by (auto simp: isdir_def split: option.splits)

lemma isfile_child:
  "isfile fs (p @ c # q) \<Longrightarrow> c \<in> set (entries fs p) \<and> isdir fs p"
  using child_in_entries [of fs p c q] by (auto simp: isfile_def split: option.splits)

lemma wf_entries_distinct: "wf_node fs \<Longrightarrow> distinct (entries fs p)"
  using wf_node_resolve [of fs p]
  by (auto simp: entries_def split: option.splits node.splits)

lemma scan_models_eq:
  "scan_models fs dp idx ms acc =
     (fst acc @ filter (isfile fs) (map (model_path dp) ms),
      snd acc @ replicate (length (filter (isfile fs) (map (model_path dp) ms))) idx)"
  by (induction ms arbitrary: acc) (auto simp: Let_def replicate_app_Cons_same)

lemma dict_set_keys: "set (map fst (dict_set d k v)) = insert k (set (map fst d))"
  by (induction d k v rule: dict_set.induct) auto

lemma dict_set_distinct_keys:
  "distinct (map fst d) \<Longrightarrow> distinct (map fst (dict_set d k v))"
  by (induction d k v rule: dict_set.induct) (auto simp: dict_set_keys [simplified])

lemma dict_set_values: "set (map snd (dict_set d k v)) \<subseteq> insert v (set (map snd d))"
  by (induction d k v rule: dict_set.induct) auto

lemma dict_set_distinct_values:
  "distinct (map snd d) \<Longrightarrow> v \<notin> set (map snd d) \<Longrightarrow> distinct (map snd (dict_set d k v))"
proof (induction d k v rule: dict_set.induct)
  case (1 k v)
  then show ?case by simp
next
  case (2 k' v' d k v)
  then show ?case using dict_set_values [of d k v] by auto
qed

lemma dict_set_fresh: "k \<notin> set (map fst d) \<Longrightarrow> dict_set d k v = d @ [(k, v)]"
  by (induction d k v rule: dict_set.induct) auto

section \<open>The label map of \<open>load_data\<close>\<close>

lemma load_data_loop_step:
  "load_data_loop fs root_dir ((idx, d) # rest) (P, L, M) =
     (if isdir fs (root_dir @ [d]) then
        load_data_loop fs root_dir rest
          (P @ filter (isfile fs) (map (model_path (root_dir @ [d])) (entries fs (root_dir @ [d]))),
           L @ replicate (length (filter (isfile fs)
                 (map (model_path (root_dir @ [d])) (entries fs (root_dir @ [d]))))) idx,
           dict_set M d idx)
      else load_data_loop fs root_dir rest (P, L, M))"
  by (simp add: Let_def isdir_listdir scan_models_eq)

lemma load_data_loop_label_map:
  assumes "load_data_loop fs root_dir (enumerate n xs) (P, L, M) = Inr (P', L', M')"
    and "distinct (map fst M)" and "distinct (map snd M)"
    and "\<forall>v \<in> set (map snd M). v < n"
  shows "distinct (map fst M') \<and> distinct (map snd M') \<and>
         (\<forall>v \<in> set (map snd M'). v < n + length xs) \<and>
         set (map fst M') = set (map fst M) \<union> {d \<in> set xs. isdir fs (root_dir @ [d])}"
  using assms
proof (induction xs arbitrary: n P L M)
  case Nil
  then show ?case by simp
next
  case (Cons x xs)
  show ?case
  proof (cases "isdir fs (root_dir @ [x])")
    case True
    let ?M = "dict_set M x n"
    from Cons.prems(1) True obtain P1 L1 where
      run: "load_data_loop fs root_dir (enumerate (Suc n) xs) (P1, L1, ?M) = Inr (P', L', M')"
      by (simp add: load_data_loop_step del: load_data_loop.simps)
    have k: "distinct (map fst ?M)"
      using Cons.prems(2) by (rule dict_set_distinct_keys)
    have fresh: "n \<notin> set (map snd M)"
      using Cons.prems(4) by auto
    have v: "distinct (map snd ?M)"
      using Cons.prems(3) fresh by (rule dict_set_distinct_values)
    have b: "\<forall>v \<in> set (map snd ?M). v < Suc n"
    proof
      fix v assume "v \<in> set (map snd ?M)"
      with dict_set_values [of M x n] have "v = n \<or> v \<in> set (map snd M)" by blast
      with Cons.prems(4) show "v < Suc n" by (auto simp: less_Suc_eq)
    qed
    from Cons.IH [OF run k v b] True show ?thesis
      by (auto simp: dict_set_keys [simplified])
  next
    case False
    with Cons.prems(1) have
      run: "load_data_loop fs root_dir (enumerate (Suc n) xs) (P, L, M) = Inr (P', L', M')"
      by (simp add: load_data_loop_step del: load_data_loop.simps)
    have b: "\<forall>v \<in> set (map snd M). v < Suc n"
      using Cons.prems(4) by (auto simp: less_Suc_eq)
    from Cons.IH [OF run Cons.prems(2,3) b] False show ?thesis
      by auto
  qed
qed

lemma load_data_Inr:
  "load_data fs root_dir = Inr r \<Longrightarrow>
   isdir fs root_dir \<and>
   load_data_loop fs root_dir (enumerate 0 (sort (entries fs root_dir))) ([], [], []) = Inr r"
  by (auto simp: load_data_def split: sum.splits dest: listdir_Inr)

lemma list_index_Inr:
  "v \<in> set xs \<Longrightarrow> \<exists>k. list_index xs v = Inr k \<and> k < length xs \<and> xs ! k = v"
  by (induction xs) auto

lemma label_of_index_inverse:
  assumes "distinct (map fst lm)" and "distinct (map snd lm)" and "i \<in> snd ` set lm"
  shows "\<exists>d. label_of_index lm i = Inr d \<and> map_of lm d = Some i \<and>
           (\<forall>d'. map_of lm d' = Some i \<longrightarrow> d' = d)"
proof -
  from assms(3) have "i \<in> set (map snd lm)" by simp
  from list_index_Inr [OF this] obtain k where
    k: "list_index (map snd lm) i = Inr k" "k < length lm" "map snd lm ! k = i"
    by auto
  let ?d = "fst (lm ! k)"
  have "lm ! k \<in> set lm" using k(2) by simp
  moreover have "lm ! k = (?d, i)" using k(2,3) by (simp add: prod_eq_iff)
  ultimately have mem: "(?d, i) \<in> set lm" by simp
  have look: "label_of_index lm i = Inr ?d"
    using k by (simp add: label_of_index_def py_index_def)
  have lookup_back: "map_of lm ?d = Some i"
    using assms(1) mem by simp
  have uniq: "d' = ?d" if "map_of lm d' = Some i" for d'
  proof -
    from that have "(d', i) \<in> set lm" by (rule map_of_SomeD)
    moreover from assms(2) have "inj_on snd (set lm)" by (simp add: distinct_map)
    ultimately show ?thesis
      using mem inj_onD [of snd "set lm" "(d', i)" "(?d, i)"] by simp
  qed
  from look lookup_back uniq show ?thesis by blast
qed

text \<open>
  C1. The label map \<open>load_data\<close> returns is a bijection between the category directory
  names and class indices: its keys are exactly the names of the directories in the root
  directory, each once; different names have different indices; and for every index of
  the map the inverse lookup of \<open>predict_3d_model\<close> returns a name, which maps back to
  that index and is the only name that does.
\<close>

theorem label_map_bijection:
  assumes "load_data fs root_dir = Inr (paths, labs, label_map)"
  shows "fst ` set label_map = {d. isdir fs (root_dir @ [d])} \<and>
         distinct (map fst label_map) \<and>
         (\<forall>d i d' i'. (d, i) \<in> set label_map \<and> (d', i') \<in> set label_map \<and> d \<noteq> d'
            \<longrightarrow> i \<noteq> i') \<and>
         (\<forall>i \<in> snd ` set label_map.
            \<exists>d. label_of_index label_map i = Inr d \<and> map_of label_map d = Some i \<and>
              (\<forall>d'. map_of label_map d' = Some i \<longrightarrow> d' = d))"
proof -
  from load_data_Inr [OF assms] have
    run: "load_data_loop fs root_dir (enumerate 0 (sort (entries fs root_dir))) ([], [], [])
            = Inr (paths, labs, label_map)"
    by simp
  from load_data_loop_label_map [OF run] have
    dk: "distinct (map fst label_map)" and dv: "distinct (map snd label_map)" and
    keys: "set (map fst label_map) = {d \<in> set (entries fs root_dir). isdir fs (root_dir @ [d])}"
    by auto
  have c1: "fst ` set label_map = {d. isdir fs (root_dir @ [d])}"
    using keys isdir_child [of fs root_dir] by auto
  have c3: "i \<noteq> i'"
    if "(d, i) \<in> set label_map" "(d', i') \<in> set label_map" "d \<noteq> d'" for d i d' i'
  proof
    assume "i = i'"
    moreover from dv have "inj_on snd (set label_map)" by (simp add: distinct_map)
    ultimately show False
      using that inj_onD [of snd "set label_map" "(d, i)" "(d', i')"] by simp
  qed
  from c1 dk c3 label_of_index_inverse [OF dk dv] show ?thesis by blast
qed

lemma demo_load_data:
  "load_data demo_tree [''data''] = Inr (demo_paths, [1, 1, 2], demo_label_map)"
  by (simp add: load_data_def listdir_def demo_tree_def model_dir_def isdir_def isfile_def
      model_path_def enumerate_eq_zip upt_rec Let_def numeral_2_eq_2 demo_paths_def
      demo_label_map_def)

theorem label_map_bijection_witness:
  "load_data demo_tree [''data''] = Inr (demo_paths, [1, 1, 2], demo_label_map) \<and>
   distinct (map fst demo_label_map) \<and>
   (\<exists>d. label_of_index demo_label_map 2 = Inr d \<and> map_of demo_label_map d = Some 2 \<and>
      (\<forall>d'. map_of demo_label_map d' = Some 2 \<longrightarrow> d' = d))"
proof -
  note t = label_map_bijection [OF demo_load_data]
  have m: "(2::nat) \<in> snd ` set demo_label_map"
    by (simp add: demo_label_map_def)
  have dk: "distinct (map fst demo_label_map)"
    using t by (elim conjE)
  have inv: "\<exists>d. label_of_index demo_label_map 2 = Inr d \<and> map_of demo_label_map d = Some 2 \<and>
      (\<forall>d'. map_of demo_label_map d' = Some 2 \<longrightarrow> d' = d)"
    using t m by (elim conjE) (rule bspec)
  from demo_load_data dk inv show ?thesis by (intro conjI)
qed

section \<open>A closed form of \<open>load_data\<close>\<close>

lemma load_data_loop_closed:
  assumes "distinct (map snd E)" and "set (map snd E) \<inter> set (map fst M) = {}"
  shows "load_data_loop fs root_dir E (P, L, M) =
     Inr (P @ concat (map (\<lambda>e. category_files fs root_dir (snd e))
                  (filter (\<lambda>e. isdir fs (root_dir @ [snd e])) E)),
          L @ concat (map (\<lambda>e. replicate (length (category_files fs root_dir (snd e))) (fst e))
                  (filter (\<lambda>e. isdir fs (root_dir @ [snd e])) E)),
          M @ map (\<lambda>e. (snd e, fst e)) (filter (\<lambda>e. isdir fs (root_dir @ [snd e])) E))"
  using assms
proof (induction E arbitrary: P L M)
  case Nil
  then show ?case by simp
next
  case (Cons e E)
  obtain idx d where e: "e = (idx, d)" by (cases e)
  show ?case
  proof (cases "isdir fs (root_dir @ [d])")
    case True
    have fresh: "d \<notin> set (map fst M)" using Cons.prems(2) e by auto
    have d1: "distinct (map snd E)" using Cons.prems(1) by simp
    have d2: "set (map snd E) \<inter> set (map fst (M @ [(d, idx)])) = {}"
      using Cons.prems e by auto
    show ?thesis
      using True Cons.IH [OF d1 d2] e
      by (simp add: load_data_loop_step dict_set_fresh [OF fresh] category_files_def
          del: load_data_loop.simps)
  next
    case False
    have d1: "distinct (map snd E)" using Cons.prems(1) by simp
    have d2: "set (map snd E) \<inter> set (map fst M) = {}" using Cons.prems(2) by auto
    show ?thesis
      using False Cons.IH [OF d1 d2] e
      by (simp add: load_data_loop_step del: load_data_loop.simps)
  qed
qed

lemma load_data_closed:
  assumes "isdir fs root_dir" and "distinct (entries fs root_dir)"
  shows "load_data fs root_dir =
     Inr (concat (map (\<lambda>e. category_files fs root_dir (snd e))
                  (filter (\<lambda>e. isdir fs (root_dir @ [snd e]))
                     (enumerate 0 (sort (entries fs root_dir))))),
          concat (map (\<lambda>e. replicate (length (category_files fs root_dir (snd e))) (fst e))
                  (filter (\<lambda>e. isdir fs (root_dir @ [snd e]))
                     (enumerate 0 (sort (entries fs root_dir))))),
          map (\<lambda>e. (snd e, fst e))
            (filter (\<lambda>e. isdir fs (root_dir @ [snd e]))
               (enumerate 0 (sort (entries fs root_dir)))))"
proof -
  have "distinct (map snd (enumerate 0 (sort (entries fs root_dir))))"
    using assms(2) by simp
  from load_data_loop_closed [OF this, of "[]" fs root_dir "[]" "[]"]
  show ?thesis using assms(1) by (simp add: load_data_def isdir_listdir)
qed

section \<open>The files \<open>load_data\<close> finds\<close>

lemma category_files_iff:
  "p \<in> set (category_files fs root_dir d) \<longleftrightarrow>
   (\<exists>m \<in> set (entries fs (root_dir @ [d])). p = model_path (root_dir @ [d]) m \<and> isfile fs p)"
  by (auto simp: category_files_def)

lemma model_path_eq:
  "model_path (root_dir @ [c]) m = root_dir @ [c, m, ''models'', ''model_normalized.obj'']"
  by (simp add: model_path_def)

lemma isfile_model_path:
  assumes "isfile fs (model_path (root_dir @ [c]) m)"
  shows "c \<in> set (entries fs root_dir) \<and> isdir fs (root_dir @ [c]) \<and>
         m \<in> set (entries fs (root_dir @ [c]))"
proof -
  have "model_path (root_dir @ [c]) m = (root_dir @ [c]) @ m # [''models'', ''model_normalized.obj'']"
    by (simp add: model_path_def)
  with assms isfile_child [of fs "root_dir @ [c]" m "[''models'', ''model_normalized.obj'']"]
  have "m \<in> set (entries fs (root_dir @ [c]))" and "isdir fs (root_dir @ [c])" by auto
  with isdir_child [of fs root_dir c] show ?thesis by simp
qed

lemma zip_concat_replicate:
  "zip (concat (map f D)) (concat (map (\<lambda>e. replicate (length (f e)) (g e)) D)) =
   concat (map (\<lambda>e. map (\<lambda>p. (p, g e)) (f e)) D)"
  by (induction D) (simp_all add: zip_replicate2)

lemma length_concat_replicate:
  "length (concat (map (\<lambda>e. replicate (length (f e)) (g e)) D)) = length (concat (map f D))"
  by (induction D) simp_all

lemma distinct_category_files:
  "distinct (entries fs (root_dir @ [d])) \<Longrightarrow> distinct (category_files fs root_dir d)"
  unfolding category_files_def
  by (intro distinct_filter) (simp add: distinct_map inj_on_def model_path_def)

lemma distinct_concat_category_files:
  assumes "distinct (map snd D)"
    and "\<And>d. distinct (entries fs (root_dir @ [d]))"
  shows "distinct (concat (map (\<lambda>e. category_files fs root_dir (snd e)) D))"
  using assms(1)
proof (induction D)
  case Nil
  then show ?case by simp
next
  case (Cons e D)
  have "set (category_files fs root_dir (snd e)) \<inter>
        set (concat (map (\<lambda>e. category_files fs root_dir (snd e)) D)) = {}"
  proof (rule ccontr)
    assume "\<not> ?thesis"
    then obtain p e' where p: "p \<in> set (category_files fs root_dir (snd e))"
      and e': "e' \<in> set D" "p \<in> set (category_files fs root_dir (snd e'))"
      by auto
    from p e'(2) have "snd e = snd e'"
      by (auto simp: category_files_iff model_path_eq)
    with e'(1) Cons.prems show False by auto
  qed
  with Cons distinct_category_files [OF assms(2)] show ?case by simp
qed

lemma load_data_paths_distinct:
  assumes "load_data fs root_dir = Inr (paths, labs, label_map)" and "wf_node fs"
  shows "distinct paths"
proof -
  from load_data_Inr [OF assms(1)] have dir: "isdir fs root_dir" by simp
  have dist: "distinct (entries fs p)" for p
    using assms(2) by (rule wf_entries_distinct)
  from load_data_closed [OF dir dist] assms(1) have
    paths: "paths = concat (map (\<lambda>e. category_files fs root_dir (snd e))
       (filter (\<lambda>e. isdir fs (root_dir @ [snd e]))
          (enumerate 0 (sort (entries fs root_dir)))))"
    by simp
  have "distinct (map snd (filter (\<lambda>e. isdir fs (root_dir @ [snd e]))
          (enumerate 0 (sort (entries fs root_dir)))))"
    using dist [of root_dir] by (simp add: distinct_map_filter)
  then show ?thesis
    unfolding paths using dist by (rule distinct_concat_category_files)
qed

text \<open>
  C7. On a directory tree that lists each name once, the paths \<open>load_data\<close> returns are
  exactly the paths \<open><root>/<category_dir>/<model_dir>/models/model_normalized.obj\<close>
  that are files, each once, and the label at the position of a path is the class index
  the label map gives to the category directory of that path.
\<close>

theorem load_data_file_layout:
  assumes run: "load_data fs root_dir = Inr (paths, labs, label_map)" and wf: "wf_node fs"
  shows "set paths =
           {p. \<exists>c m. p = root_dir @ [c, m, ''models'', ''model_normalized.obj''] \<and> isfile fs p} \<and>
         distinct paths \<and>
         length labs = length paths \<and>
         (\<forall>k < length paths. \<exists>c m.
            paths ! k = root_dir @ [c, m, ''models'', ''model_normalized.obj''] \<and>
            map_of label_map c = Some (labs ! k))"
proof -
  let ?E = "enumerate 0 (sort (entries fs root_dir))"
  let ?D = "filter (\<lambda>e. isdir fs (root_dir @ [snd e])) ?E"
  let ?f = "\<lambda>e. category_files fs root_dir (snd e)"
  from load_data_Inr [OF run] have dir: "isdir fs root_dir" by simp
  have dist: "distinct (entries fs p)" for p
    using wf by (rule wf_entries_distinct)
  from load_data_closed [OF dir dist] run have
    paths: "paths = concat (map ?f ?D)" and
    labs: "labs = concat (map (\<lambda>e. replicate (length (?f e)) (fst e)) ?D)" and
    lm: "label_map = map (\<lambda>e. (snd e, fst e)) ?D"
    by simp_all
  have dD: "distinct (map snd ?D)"
    using dist [of root_dir] by (simp add: distinct_map_filter)
  have look: "map_of label_map (snd e) = Some (fst e)" if "e \<in> set ?D" for e
  proof -
    have "distinct (map fst label_map)" using dD by (simp add: lm comp_def)
    moreover have "(snd e, fst e) \<in> set label_map" using that unfolding lm by force
    ultimately show ?thesis by simp
  qed
  have snd_E: "snd ` set ?E = set (entries fs root_dir)"
  proof -
    have "snd ` set ?E = set (map snd ?E)" by (simp only: set_map)
    also have "\<dots> = set (entries fs root_dir)" by simp
    finally show ?thesis .
  qed
  have a: "set paths =
      {p. \<exists>c m. p = root_dir @ [c, m, ''models'', ''model_normalized.obj''] \<and> isfile fs p}"
  proof (intro set_eqI iffI)
    fix p assume "p \<in> set paths"
    then show "p \<in> {p. \<exists>c m. p = root_dir @ [c, m, ''models'', ''model_normalized.obj''] \<and> isfile fs p}"
      by (auto simp: paths category_files_iff model_path_eq)
  next
    fix p assume "p \<in> {p. \<exists>c m. p = root_dir @ [c, m, ''models'', ''model_normalized.obj''] \<and> isfile fs p}"
    then obtain c m where p: "p = model_path (root_dir @ [c]) m" and f: "isfile fs p"
      by (auto simp: model_path_eq)
    from isfile_model_path [of fs root_dir c m] p f have
      c: "c \<in> set (entries fs root_dir)" "isdir fs (root_dir @ [c])" and
      m: "m \<in> set (entries fs (root_dir @ [c]))"
      by auto
    from c(1) snd_E have "c \<in> snd ` set ?E" by simp
    then obtain i where e: "(i, c) \<in> set ?E" by auto
    with c(2) have "(i, c) \<in> set ?D" by simp
    moreover have "p \<in> set (?f (i, c))"
      using p f m by (auto simp: category_files_iff)
    ultimately have "\<exists>e \<in> set ?D. p \<in> set (?f e)" by (rule bexI [rotated])
    then show "p \<in> set paths" unfolding paths by simp
  qed
  have b: "distinct paths"
    unfolding paths using dD dist by (rule distinct_concat_category_files)
  have c: "length labs = length paths"
    unfolding paths labs by (rule length_concat_replicate)
  have d: "\<exists>c m. paths ! k = root_dir @ [c, m, ''models'', ''model_normalized.obj''] \<and>
             map_of label_map c = Some (labs ! k)" if k: "k < length paths" for k
  proof -
    have "(paths ! k, labs ! k) \<in> set (zip paths labs)"
      using k c by (auto simp: set_zip)
    also have "zip paths labs = concat (map (\<lambda>e. map (\<lambda>p. (p, fst e)) (?f e)) ?D)"
      unfolding paths labs by (rule zip_concat_replicate)
    finally obtain e where e: "e \<in> set ?D" "paths ! k \<in> set (?f e)" "labs ! k = fst e"
      by auto
    from e(2) obtain m where "paths ! k = model_path (root_dir @ [snd e]) m"
      by (auto simp: category_files_iff)
    with look [OF e(1)] e(3) show ?thesis
      by (auto simp: model_path_eq)
  qed
  from a b c d show ?thesis by blast
qed

lemma wf_demo_tree: "wf_node demo_tree"
  by (simp add: demo_tree_def model_dir_def)

theorem load_data_file_layout_witness:
  "load_data demo_tree [''data''] = Inr (demo_paths, [1, 1, 2], demo_label_map) \<and>
   wf_node demo_tree \<and>
   set demo_paths =
     {p. \<exists>c m. p = [''data''] @ [c, m, ''models'', ''model_normalized.obj''] \<and>
        isfile demo_tree p} \<and>
   distinct demo_paths \<and>
   length [1, 1, 2::nat] = length demo_paths"
proof -
  note t = load_data_file_layout [OF demo_load_data wf_demo_tree]
  have a: "set demo_paths =
     {p. \<exists>c m. p = [''data''] @ [c, m, ''models'', ''model_normalized.obj''] \<and>
        isfile demo_tree p}"
    using t by (elim conjE)
  have b: "distinct demo_paths" using t by (elim conjE)
  have c: "length [1, 1, 2::nat] = length demo_paths" using t by (elim conjE)
  from demo_load_data wf_demo_tree a b c show ?thesis by (intro conjI)
qed

lemma label_map_dense_when_only_directories:
  assumes "load_data fs root_dir = Inr (paths, labs, label_map)" and "wf_node fs"
    and "\<forall>d \<in> set (entries fs root_dir). isdir fs (root_dir @ [d])"
  shows "map fst label_map = sort (entries fs root_dir) \<and>
         map snd label_map = [0..<length label_map]"
proof -
  let ?E = "enumerate 0 (sort (entries fs root_dir))"
  from load_data_Inr [OF assms(1)] have dir: "isdir fs root_dir" by simp
  have "isdir fs (root_dir @ [snd e])" if "e \<in> set ?E" for e
  proof -
    from that have "snd e \<in> snd ` set ?E" by (rule imageI)
    then have "snd e \<in> set (map snd ?E)" by (simp only: set_map)
    then show ?thesis using assms(3) by simp
  qed
  then have "filter (\<lambda>e. isdir fs (root_dir @ [snd e])) ?E = ?E"
    by (simp add: filter_id_conv)
  with load_data_closed [OF dir wf_entries_distinct [OF assms(2)]] assms(1)
  have lm: "label_map = map (\<lambda>e. (snd e, fst e)) ?E" by simp
  show ?thesis by (simp add: lm comp_def)
qed

text \<open>
  C2. The class index of a category directory is its position among all the sorted
  entries of the root directory, files included, not among the directories: on a root
  directory that lists the file \<open>.DS_Store\<close> and two category directories, the label map
  has the values 1 and 2, which are not \<open>{0, 1}\<close>, and the inverse lookup of class 0
  raises.
\<close>

theorem label_map_counts_stray_files:
  "load_data demo_tree [''data''] = Inr (demo_paths, [1, 1, 2], demo_label_map) \<and>
   map snd demo_label_map = [1, 2] \<and>
   set (map snd demo_label_map) \<noteq> {0..<length demo_label_map} \<and>
   label_of_index demo_label_map 0 = Inl ValueError"
proof -
  have "set (map snd demo_label_map) \<noteq> {0..<length demo_label_map}"
  proof
    assume "set (map snd demo_label_map) = {0..<length demo_label_map}"
    then have "(0::nat) \<in> set (map snd demo_label_map)" by (simp add: demo_label_map_def)
    then show False by (simp add: demo_label_map_def)
  qed
  moreover have "label_of_index demo_label_map 0 = Inl ValueError"
    by (simp add: label_of_index_def demo_label_map_def)
  moreover have "map snd demo_label_map = [1, 2]"
    by (simp add: demo_label_map_def)
  ultimately show ?thesis using demo_load_data by (intro conjI)
qed

section \<open>The training loop, epoch by epoch\<close>

lemma val_losses_append: "val_losses (xs @ ys) = val_losses xs @ val_losses ys"
  by (induction xs rule: val_losses.induct) simp_all

lemma train_epoch_Inr:
  "train_epoch lib train_loader val_loader sp ep st = Inr st' \<Longrightarrow>
   \<exists>m opt avt av. st' = check_val_loss lib sp ep st m opt avt av"
  unfolding train_epoch_def by (auto simp: andthen_Inr_iff)

lemma train_epoch_effect:
  assumes "train_epoch lib train_loader val_loader sp ep st = Inr st'"
  shows "\<exists>av avt.
    printed st' = printed st @ EpochReport (ep + 1) avt av #
       (if float_lt av (cur_best st) then [ValLossDecreased (cur_best st) av] else []) \<and>
    cur_best st' = (if float_lt av (cur_best st) then av else cur_best st) \<and>
    saved st' = saved st @
       (if float_lt av (cur_best st)
        then [(path_join ''./checkpoints'' sp,
               \<lparr>epoch = ep + 1, state_dict = model_state_dict lib (cur_model st'),
                best_val_loss = av, optimizer = optimizer_state_dict lib (cur_optimizer st')\<rparr>)]
        else []) \<and>
    disk_of st' =
       (if float_lt av (cur_best st)
        then (disk_of st)(path_join ''./checkpoints'' sp \<mapsto>
               Pickled \<lparr>epoch = ep + 1, state_dict = model_state_dict lib (cur_model st'),
                best_val_loss = av, optimizer = optimizer_state_dict lib (cur_optimizer st')\<rparr>)
        else disk_of st)"
proof -
  from train_epoch_Inr [OF assms] obtain m opt avt av where
    st': "st' = check_val_loss lib sp ep st m opt avt av" by blast
  show ?thesis
    unfolding st'
    by (intro exI [of _ av] exI [of _ avt])
      (simp add: check_val_loss_def Let_def save_checkpoint_def)
qed

lemma train_loop_append:
  "train_loop lib trl vll sp (xs @ ys) st =
     andthen (train_loop lib trl vll sp xs st) (train_loop lib trl vll sp ys)"
proof (induction xs arbitrary: st)
  case Nil
  then show ?case by simp
next
  case (Cons x xs)
  then show ?case
    by (cases "train_epoch lib trl vll sp x st") simp_all
qed

lemma py_range_Suc: "py_range (int (Suc k)) = py_range (int k) @ [int k]"
  unfolding py_range_def nat_int by simp

lemma py_range_nat: "py_range n = py_range (int (nat n))"
  by (simp add: py_range_def)

lemma train_model_nat:
  "train_model lib model trl vll n sp disk = train_model lib model trl vll (int (nat n)) sp disk"
  unfolding train_model_def by (subst py_range_nat) (rule refl)

lemma train_model_0:
  "train_model lib model trl vll 0 sp disk =
     Inr \<lparr>cur_model = model, cur_optimizer = adam lib model, cur_best = PosInf,
          disk_of = disk, printed = [], saved = []\<rparr>"
  by (simp add: train_model_def py_range_def)

lemma train_model_Suc:
  "train_model lib model trl vll (int (Suc k)) sp disk =
     andthen (train_model lib model trl vll (int k) sp disk)
       (train_epoch lib trl vll sp (int k))"
proof -
  have "train_loop lib trl vll sp [int k] = train_epoch lib trl vll sp (int k)"
  proof
    fix st show "train_loop lib trl vll sp [int k] st = train_epoch lib trl vll sp (int k) st"
      by (cases "train_epoch lib trl vll sp (int k) st") simp_all
  qed
  then show ?thesis
    unfolding train_model_def py_range_Suc train_loop_append by simp
qed

lemma train_model_Suc_Inr:
  assumes "train_model lib model trl vll (int (Suc k)) sp disk = Inr st'"
  obtains st where "train_model lib model trl vll (int k) sp disk = Inr st"
    and "train_epoch lib trl vll sp (int k) st = Inr st'"
  using assms unfolding train_model_Suc andthen_Inr_iff by blast

lemma train_model_prefix:
  assumes "train_model lib model trl vll (int n) sp disk = Inr st" and "k \<le> n"
  shows "\<exists>s. train_model lib model trl vll (int k) sp disk = Inr s"
  using assms
proof (induction n arbitrary: st)
  case 0
  then show ?case by simp
next
  case (Suc n)
  show ?case
  proof (cases "k = Suc n")
    case True
    with Suc.prems(1) show ?thesis by blast
  next
    case False
    with Suc.prems(2) have "k \<le> n" by simp
    from Suc.prems(1) obtain s where "train_model lib model trl vll (int n) sp disk = Inr s"
      by (rule train_model_Suc_Inr)
    from Suc.IH [OF this \<open>k \<le> n\<close>] show ?thesis .
  qed
qed

section \<open>The running minimum of the validation loss\<close>

lemma float_lt_not_NaN: "float_lt a b \<Longrightarrow> a \<noteq> NaN \<and> b \<noteq> NaN"
  by (cases a; cases b) auto

lemma float_lt_irrefl: "\<not> float_lt a a"
  by (cases a) auto

lemma float_lt_asym: "float_lt a b \<Longrightarrow> \<not> float_lt b a"
  by (cases a; cases b) auto

lemma float_lt_trans: "float_lt a b \<Longrightarrow> float_lt b c \<Longrightarrow> float_lt a c"
  by (cases a; cases b; cases c) auto

lemma float_lt_below: "float_lt a b \<Longrightarrow> \<not> float_lt c b \<Longrightarrow> c \<noteq> NaN \<Longrightarrow> float_lt a c"
  by (cases a; cases b; cases c) auto

lemma float_lt_PosInf_left: "\<not> float_lt PosInf y"
  by (cases y) auto

lemma train_model_step:
  assumes "train_epoch lib trl vll sp ep s = Inr s'"
  shows "\<exists>av. val_losses (printed s') = val_losses (printed s) @ [av] \<and>
           cur_best s' = (if float_lt av (cur_best s) then av else cur_best s) \<and>
           saved s' = saved s @
             (if float_lt av (cur_best s)
              then [(path_join ''./checkpoints'' sp,
                     \<lparr>epoch = ep + 1, state_dict = model_state_dict lib (cur_model s'),
                      best_val_loss = av,
                      optimizer = optimizer_state_dict lib (cur_optimizer s')\<rparr>)]
              else [])"
proof -
  from train_epoch_effect [OF assms] obtain av avt where
    p: "printed s' = printed s @ EpochReport (ep + 1) avt av #
          (if float_lt av (cur_best s) then [ValLossDecreased (cur_best s) av] else [])" and
    b: "cur_best s' = (if float_lt av (cur_best s) then av else cur_best s)" and
    sv: "saved s' = saved s @
             (if float_lt av (cur_best s)
              then [(path_join ''./checkpoints'' sp,
                     \<lparr>epoch = ep + 1, state_dict = model_state_dict lib (cur_model s'),
                      best_val_loss = av,
                      optimizer = optimizer_state_dict lib (cur_optimizer s')\<rparr>)]
              else [])"
    by blast
  have "val_losses (printed s') = val_losses (printed s) @ [av]"
    unfolding p by (simp add: val_losses_append)
  with b sv show ?thesis by blast
qed

lemma train_model_invariant:
  assumes "train_model lib model trl vll (int k) sp disk = Inr s"
  shows "length (val_losses (printed s)) = k \<and>
         cur_best s \<noteq> NaN \<and>
         (cur_best s = PosInf \<or> cur_best s \<in> set (val_losses (printed s))) \<and>
         (\<forall>v \<in> set (val_losses (printed s)). \<not> float_lt v (cur_best s))"
  using assms
proof (induction k arbitrary: s)
  case 0
  then show ?case
    using train_model_0 [of lib model trl vll sp disk] by auto
next
  case (Suc k)
  from Suc.prems obtain s0 where
    s0: "train_model lib model trl vll (int k) sp disk = Inr s0" and
    ep: "train_epoch lib trl vll sp (int k) s0 = Inr s"
    by (rule train_model_Suc_Inr)
  from Suc.IH [OF s0] have
    len: "length (val_losses (printed s0)) = k" and
    nn: "cur_best s0 \<noteq> NaN" and
    att: "cur_best s0 = PosInf \<or> cur_best s0 \<in> set (val_losses (printed s0))" and
    low: "\<forall>v \<in> set (val_losses (printed s0)). \<not> float_lt v (cur_best s0)"
    by simp_all
  from train_model_step [OF ep] obtain av where
    V: "val_losses (printed s) = val_losses (printed s0) @ [av]" and
    b: "cur_best s = (if float_lt av (cur_best s0) then av else cur_best s0)"
    by blast
  show ?case
  proof (cases "float_lt av (cur_best s0)")
    case True
    have "\<not> float_lt v av" if "v \<in> set (val_losses (printed s0))" for v
      using that low True float_lt_trans [of v av "cur_best s0"] by blast
    with True show ?thesis
      using V b len float_lt_not_NaN [OF True] float_lt_irrefl [of av] by auto
  next
    case False
    then show ?thesis
      using V b len nn att low by auto
  qed
qed

lemma save_iff_below_all:
  assumes nn: "best \<noteq> NaN"
    and att: "best = PosInf \<or> best \<in> set V"
    and low: "\<forall>v \<in> set V. \<not> float_lt v best"
  shows "float_lt av best \<longleftrightarrow>
         float_lt av PosInf \<and> (\<forall>v \<in> set V. v = NaN \<or> float_lt av v)"
proof
  assume lt: "float_lt av best"
  have "float_lt av PosInf"
    using float_lt_below [OF lt float_lt_PosInf_left] by simp
  moreover have "v = NaN \<or> float_lt av v" if "v \<in> set V" for v
    using float_lt_below [OF lt, of v] low that by blast
  ultimately show "float_lt av PosInf \<and> (\<forall>v \<in> set V. v = NaN \<or> float_lt av v)" by blast
next
  assume "float_lt av PosInf \<and> (\<forall>v \<in> set V. v = NaN \<or> float_lt av v)"
  with att nn show "float_lt av best" by auto
qed

lemma val_losses_prefix:
  assumes "train_model lib model trl vll (int n) sp disk = Inr st"
    and "train_model lib model trl vll (int k) sp disk = Inr s" and "k \<le> n"
  shows "val_losses (printed s) = take k (val_losses (printed st))"
  using assms
proof (induction n arbitrary: st)
  case 0
  then show ?case using train_model_invariant [OF "0.prems"(2)] by simp
next
  case (Suc n)
  show ?case
  proof (cases "k = Suc n")
    case True
    with Suc.prems train_model_invariant [OF Suc.prems(1)] show ?thesis by simp
  next
    case False
    with Suc.prems(3) have kn: "k \<le> n" by simp
    from Suc.prems(1) obtain s0 where
      s0: "train_model lib model trl vll (int n) sp disk = Inr s0" and
      ep: "train_epoch lib trl vll sp (int n) s0 = Inr st"
      by (rule train_model_Suc_Inr)
    from train_model_step [OF ep] obtain av where
      V: "val_losses (printed st) = val_losses (printed s0) @ [av]" by blast
    from train_model_invariant [OF s0] have "length (val_losses (printed s0)) = n" by simp
    with Suc.IH [OF s0 Suc.prems(2) kn] V kn show ?thesis by simp
  qed
qed

lemma saved_origin:
  assumes "train_model lib model trl vll (int n) sp disk = Inr st"
    and "(p, c) \<in> set (saved st)"
  shows "\<exists>k s s'. k < n \<and>
           train_model lib model trl vll (int k) sp disk = Inr s \<and>
           train_epoch lib trl vll sp (int k) s = Inr s' \<and>
           saved s' = saved s @ [(p, c)] \<and>
           p = path_join ''./checkpoints'' sp \<and>
           disk_of s' p = Some (Pickled c) \<and>
           c = \<lparr>epoch = int k + 1, state_dict = model_state_dict lib (cur_model s'),
                best_val_loss = cur_best s',
                optimizer = optimizer_state_dict lib (cur_optimizer s')\<rparr>"
  using assms
proof (induction n arbitrary: st)
  case 0
  then show ?case using train_model_0 [of lib model trl vll sp disk] by auto
next
  case (Suc n)
  from Suc.prems(1) obtain s0 where
    s0: "train_model lib model trl vll (int n) sp disk = Inr s0" and
    ep: "train_epoch lib trl vll sp (int n) s0 = Inr st"
    by (rule train_model_Suc_Inr)
  show ?case
  proof (cases "(p, c) \<in> set (saved s0)")
    case True
    from Suc.IH [OF s0 True] show ?thesis by (auto intro: less_SucI)
  next
    case False
    from train_epoch_effect [OF ep] obtain av and avt :: pyfloat where
      b: "cur_best st = (if float_lt av (cur_best s0) then av else cur_best s0)" and
      sv: "saved st = saved s0 @
         (if float_lt av (cur_best s0)
          then [(path_join ''./checkpoints'' sp,
                 \<lparr>epoch = int n + 1, state_dict = model_state_dict lib (cur_model st),
                  best_val_loss = av, optimizer = optimizer_state_dict lib (cur_optimizer st)\<rparr>)]
          else [])" and
      dk: "disk_of st =
         (if float_lt av (cur_best s0)
          then (disk_of s0)(path_join ''./checkpoints'' sp \<mapsto>
                 Pickled \<lparr>epoch = int n + 1, state_dict = model_state_dict lib (cur_model st),
                  best_val_loss = av, optimizer = optimizer_state_dict lib (cur_optimizer st)\<rparr>)
          else disk_of s0)"
      by blast
    from False Suc.prems(2) sv have lt: "float_lt av (cur_best s0)"
      by (auto split: if_splits)
    with False Suc.prems(2) sv have
      pc: "p = path_join ''./checkpoints'' sp"
        "c = \<lparr>epoch = int n + 1, state_dict = model_state_dict lib (cur_model st),
                  best_val_loss = av, optimizer = optimizer_state_dict lib (cur_optimizer st)\<rparr>"
      by auto
    have "saved st = saved s0 @ [(p, c)]" using sv lt pc by simp
    moreover have "disk_of st p = Some (Pickled c)" using dk lt pc by simp
    moreover have "cur_best st = av" using b lt by simp
    ultimately show ?thesis using s0 ep pc by (intro exI [of _ n] exI [of _ s0] exI [of _ st]) simp
  qed
qed

section \<open>Example runs\<close>

lemmas demo_run_defs =
  demo_run_def train_model_def py_range_def upt_rec train_epoch_def check_val_loss_def
  float_div_len_def save_checkpoint_def demo_torch_def Let_def path_join_def

lemma demo_run_3:
  "\<exists>st. demo_run (Finite 5) 3 = Inr st \<and> cur_best st = Finite 1 \<and>
     val_losses (printed st) = [Finite 5, Finite 1, Finite 5] \<and>
     saved st =
       [(''./checkpoints/model_checkpoint.pth'',
         \<lparr>epoch = 1, state_dict = 1, best_val_loss = Finite 5, optimizer = 1\<rparr>),
        (''./checkpoints/model_checkpoint.pth'',
         \<lparr>epoch = 2, state_dict = 2, best_val_loss = Finite 1, optimizer = 2\<rparr>)]"
  by (simp add: demo_run_defs)

lemma demo_run_NaN:
  "\<exists>st. demo_run NaN 1 = Inr st \<and> cur_best st = PosInf \<and>
     val_losses (printed st) = [NaN] \<and> saved st = []"
  by (simp add: demo_run_defs)

section \<open>The checkpoints \<open>train_model\<close> writes\<close>

text \<open>
  C5. Every checkpoint \<open>train_model\<close> writes is the record of exactly the four fields
  \<open>epoch\<close>, \<open>state_dict\<close>, \<open>best_val_loss\<close> and \<open>optimizer\<close>, pickled into the file
  \<open>./checkpoints/<save_path>\<close>, and it was written by the pass of the loop body for some
  \<open>ep\<close> in \<open>range(num_epochs)\<close>, started in the state the earlier passes left: its
  \<open>epoch\<close> is \<open>ep + 1\<close>, the 1-based number of that epoch, and the other fields are the
  model's state, the validation loss and the optimizer's state at the end of that pass.
\<close>

theorem train_model_checkpoint_fields:
  assumes "train_model lib model trl vll num_epochs sp disk = Inr st"
    and "(p, c) \<in> set (saved st)"
  shows "\<exists>ep s s'. 0 \<le> ep \<and> ep < num_epochs \<and>
           train_model lib model trl vll ep sp disk = Inr s \<and>
           train_epoch lib trl vll sp ep s = Inr s' \<and>
           saved s' = saved s @ [(p, c)] \<and>
           p = path_join ''./checkpoints'' sp \<and>
           disk_of s' p = Some (Pickled c) \<and>
           c = \<lparr>epoch = ep + 1, state_dict = model_state_dict lib (cur_model s'),
                best_val_loss = cur_best s',
                optimizer = optimizer_state_dict lib (cur_optimizer s')\<rparr>"
proof -
  from assms(1) have "train_model lib model trl vll (int (nat num_epochs)) sp disk = Inr st"
    by (simp only: train_model_nat [symmetric])
  from saved_origin [OF this assms(2)] obtain k s s' where
    k: "k < nat num_epochs" and
    r: "train_model lib model trl vll (int k) sp disk = Inr s"
      "train_epoch lib trl vll sp (int k) s = Inr s'"
      "saved s' = saved s @ [(p, c)]"
      "p = path_join ''./checkpoints'' sp"
      "disk_of s' p = Some (Pickled c)"
      "c = \<lparr>epoch = int k + 1, state_dict = model_state_dict lib (cur_model s'),
                best_val_loss = cur_best s',
                optimizer = optimizer_state_dict lib (cur_optimizer s')\<rparr>"
    by blast
  from k have "0 \<le> int k" "int k < num_epochs" by simp_all
  with r show ?thesis by blast
qed

theorem train_model_checkpoint_fields_witness:
  "\<exists>st. demo_run (Finite 5) 3 = Inr st \<and>
     (''./checkpoints/model_checkpoint.pth'',
      \<lparr>epoch = 2, state_dict = 2, best_val_loss = Finite 1, optimizer = 2\<rparr>) \<in> set (saved st) \<and>
     (\<exists>ep s s'. 0 \<le> ep \<and> ep < 3 \<and> demo_run (Finite 5) ep = Inr s \<and>
        train_epoch demo_torch [Finite 1] [Finite 5] ''model_checkpoint.pth'' ep s = Inr s' \<and>
        \<lparr>epoch = 2, state_dict = 2, best_val_loss = Finite 1, optimizer = 2\<rparr> =
          \<lparr>epoch = ep + 1, state_dict = model_state_dict demo_torch (cur_model s'),
           best_val_loss = cur_best s',
           optimizer = optimizer_state_dict demo_torch (cur_optimizer s')\<rparr>)"
proof -
  from demo_run_3 obtain st where
    run: "demo_run (Finite 5) 3 = Inr st" and
    mem: "(''./checkpoints/model_checkpoint.pth'',
      \<lparr>epoch = 2, state_dict = 2, best_val_loss = Finite 1, optimizer = 2\<rparr>) \<in> set (saved st)"
    by auto
  from train_model_checkpoint_fields [OF run [unfolded demo_run_def] mem]
  show ?thesis using run mem unfolding demo_run_def by blast
qed

lemma set_take_nth:
  assumes "k \<le> length V"
  shows "(\<forall>v \<in> set (take k V). P v) \<longleftrightarrow> (\<forall>j<k. P (V ! j))"
proof
  assume a: "\<forall>v \<in> set (take k V). P v"
  show "\<forall>j<k. P (V ! j)"
  proof (intro allI impI)
    fix j assume j: "j < k"
    with assms have "take k V ! j \<in> set (take k V)" by (intro nth_mem) simp
    with a j show "P (V ! j)" by auto
  qed
next
  assume "\<forall>j<k. P (V ! j)"
  then show "\<forall>v \<in> set (take k V). P v"
    by (auto simp: in_set_conv_nth)
qed

lemma running_minimum_facts:
  assumes run: "train_model lib model trl vll num_epochs sp disk = Inr st"
  shows "length (val_losses (printed st)) = nat num_epochs \<and>
    cur_best st \<noteq> NaN \<and>
    (cur_best st = PosInf \<or> cur_best st \<in> set (val_losses (printed st))) \<and>
    (\<forall>v \<in> set (val_losses (printed st)). \<not> float_lt v (cur_best st)) \<and>
    (\<forall>k < nat num_epochs. \<exists>s s'.
       train_model lib model trl vll (int k) sp disk = Inr s \<and>
       train_epoch lib trl vll sp (int k) s = Inr s' \<and>
       train_model lib model trl vll (int k + 1) sp disk = Inr s' \<and>
       val_losses (printed s) = take k (val_losses (printed st)) \<and>
       \<not> float_lt (cur_best s) (cur_best s') \<and>
       (saved s' \<noteq> saved s \<longleftrightarrow> float_lt (val_losses (printed st) ! k) (cur_best s)) \<and>
       (saved s' \<noteq> saved s \<longleftrightarrow>
          float_lt (val_losses (printed st) ! k) PosInf \<and>
          (\<forall>j<k. val_losses (printed st) ! j = NaN \<or>
             float_lt (val_losses (printed st) ! k) (val_losses (printed st) ! j))) \<and>
       (saved s' \<noteq> saved s \<longrightarrow>
          (\<exists>c. saved s' = saved s @ [(path_join ''./checkpoints'' sp, c)] \<and>
             epoch c = int k + 1 \<and>
             best_val_loss c = val_losses (printed st) ! k \<and>
             cur_best s' = val_losses (printed st) ! k)))"
proof -
  let ?n = "nat num_epochs"
  let ?V = "val_losses (printed st)"
  from run have runn: "train_model lib model trl vll (int ?n) sp disk = Inr st"
    by (simp only: train_model_nat [symmetric])
  from train_model_invariant [OF runn] have
    len: "length ?V = ?n" and
    nn0: "cur_best st \<noteq> NaN" and
    att: "cur_best st = PosInf \<or> cur_best st \<in> set ?V" and
    low: "\<forall>v \<in> set ?V. \<not> float_lt v (cur_best st)"
    by simp_all
  have step: "\<exists>s s'.
       train_model lib model trl vll (int k) sp disk = Inr s \<and>
       train_epoch lib trl vll sp (int k) s = Inr s' \<and>
       train_model lib model trl vll (int k + 1) sp disk = Inr s' \<and>
       val_losses (printed s) = take k ?V \<and>
       \<not> float_lt (cur_best s) (cur_best s') \<and>
       (saved s' \<noteq> saved s \<longleftrightarrow> float_lt (?V ! k) (cur_best s)) \<and>
       (saved s' \<noteq> saved s \<longleftrightarrow>
          float_lt (?V ! k) PosInf \<and> (\<forall>j<k. ?V ! j = NaN \<or> float_lt (?V ! k) (?V ! j))) \<and>
       (saved s' \<noteq> saved s \<longrightarrow>
          (\<exists>c. saved s' = saved s @ [(path_join ''./checkpoints'' sp, c)] \<and>
             epoch c = int k + 1 \<and>
             best_val_loss c = ?V ! k \<and> cur_best s' = ?V ! k))"
    if k: "k < ?n" for k
  proof -
    from k have "Suc k \<le> ?n" by simp
    from train_model_prefix [OF runn this] obtain s' where
      s': "train_model lib model trl vll (int (Suc k)) sp disk = Inr s'" by blast
    then obtain s where
      s: "train_model lib model trl vll (int k) sp disk = Inr s" and
      ep: "train_epoch lib trl vll sp (int k) s = Inr s'"
      by (rule train_model_Suc_Inr)
    have s'1: "train_model lib model trl vll (int k + 1) sp disk = Inr s'"
      using s' by (simp add: add.commute)
    have Vs: "val_losses (printed s) = take k ?V"
      using val_losses_prefix [OF runn s] k by simp
    have Vs': "val_losses (printed s') = take (Suc k) ?V"
      using val_losses_prefix [OF runn s'] k by simp
    from train_model_step [OF ep] obtain av where
      V: "val_losses (printed s') = val_losses (printed s) @ [av]" and
      b: "cur_best s' = (if float_lt av (cur_best s) then av else cur_best s)" and
      sv: "saved s' = saved s @
             (if float_lt av (cur_best s)
              then [(path_join ''./checkpoints'' sp,
                     \<lparr>epoch = int k + 1, state_dict = model_state_dict lib (cur_model s'),
                      best_val_loss = av,
                      optimizer = optimizer_state_dict lib (cur_optimizer s')\<rparr>)]
              else [])"
      by blast
    have "take (Suc k) ?V ! k = (take k ?V @ [av]) ! k"
      using V Vs Vs' by simp
    then have av: "?V ! k = av"
      using k len by (simp add: nth_append)
    from train_model_invariant [OF s] have
      nn: "cur_best s \<noteq> NaN" and
      att_s: "cur_best s = PosInf \<or> cur_best s \<in> set (take k ?V)" and
      low_s: "\<forall>v \<in> set (take k ?V). \<not> float_lt v (cur_best s)"
      by (simp_all add: Vs)
    have mono: "\<not> float_lt (cur_best s) (cur_best s')"
      using b float_lt_asym [of av "cur_best s"] float_lt_irrefl [of "cur_best s"]
      by (auto split: if_splits)
    have i1: "saved s' \<noteq> saved s \<longleftrightarrow> float_lt (?V ! k) (cur_best s)"
      using sv av by simp
    have "float_lt av (cur_best s) \<longleftrightarrow>
          float_lt av PosInf \<and> (\<forall>v \<in> set (take k ?V). v = NaN \<or> float_lt av v)"
      using nn att_s low_s by (rule save_iff_below_all)
    also have "(\<forall>v \<in> set (take k ?V). v = NaN \<or> float_lt av v) \<longleftrightarrow>
               (\<forall>j<k. ?V ! j = NaN \<or> float_lt av (?V ! j))"
      using k len by (intro set_take_nth) simp
    finally have i2: "saved s' \<noteq> saved s \<longleftrightarrow>
          float_lt (?V ! k) PosInf \<and> (\<forall>j<k. ?V ! j = NaN \<or> float_lt (?V ! k) (?V ! j))"
      using i1 av by simp
    have i3: "saved s' \<noteq> saved s \<longrightarrow>
          (\<exists>c. saved s' = saved s @ [(path_join ''./checkpoints'' sp, c)] \<and>
             epoch c = int k + 1 \<and>
             best_val_loss c = ?V ! k \<and> cur_best s' = ?V ! k)"
      using sv b av by (auto split: if_splits)
    from s ep s'1 Vs mono i1 i2 i3 show ?thesis by blast
  qed
  from len nn0 att low step show ?thesis by blast
qed

text \<open>
  C9. Throughout \<open>train_model\<close>, that is after any number of completed epochs,
  \<open>best_val_loss\<close> is the minimum of positive infinity and the average validation
  losses of the completed epochs: it is positive infinity or one of them, and none of
  them is below it (a NaN loss is below nothing and is passed over, so \<open>best_val_loss\<close>
  is never NaN). Each epoch leaves it unchanged or lowers it. A checkpoint is saved in an
  epoch if and only if the
  average validation loss of the epoch is strictly smaller, by Python's \<open><\<close>, than the
  \<open>best_val_loss\<close> before the epoch, that is, than positive infinity and than the loss of
  every previous epoch that is not NaN; the saved \<open>best_val_loss\<close> field is then that
  loss, and so is the new \<open>best_val_loss\<close>.
\<close>

theorem best_val_loss_running_minimum:
  assumes "train_model lib model trl vll num_epochs sp disk = Inr st"
  shows "length (val_losses (printed st)) = nat num_epochs \<and>
    cur_best st \<noteq> NaN \<and>
    (cur_best st = PosInf \<or> cur_best st \<in> set (val_losses (printed st))) \<and>
    (\<forall>v \<in> set (val_losses (printed st)). \<not> float_lt v (cur_best st)) \<and>
    (\<forall>k < nat num_epochs. \<exists>s s'.
       train_model lib model trl vll (int k) sp disk = Inr s \<and>
       train_epoch lib trl vll sp (int k) s = Inr s' \<and>
       train_model lib model trl vll (int k + 1) sp disk = Inr s' \<and>
       val_losses (printed s) = take k (val_losses (printed st)) \<and>
       \<not> float_lt (cur_best s) (cur_best s') \<and>
       (saved s' \<noteq> saved s \<longleftrightarrow> float_lt (val_losses (printed st) ! k) (cur_best s)) \<and>
       (saved s' \<noteq> saved s \<longleftrightarrow>
          float_lt (val_losses (printed st) ! k) PosInf \<and>
          (\<forall>j<k. val_losses (printed st) ! j = NaN \<or>
             float_lt (val_losses (printed st) ! k) (val_losses (printed st) ! j))) \<and>
       (saved s' \<noteq> saved s \<longrightarrow>
          (\<exists>c. saved s' = saved s @ [(path_join ''./checkpoints'' sp, c)] \<and>
             epoch c = int k + 1 \<and>
             best_val_loss c = val_losses (printed st) ! k \<and>
             cur_best s' = val_losses (printed st) ! k)))"
  using assms by (rule running_minimum_facts)

theorem best_val_loss_running_minimum_witness:
  "\<exists>st. demo_run (Finite 5) 3 = Inr st \<and>
     val_losses (printed st) = [Finite 5, Finite 1, Finite 5] \<and>
     cur_best st = Finite 1 \<and>
     length (val_losses (printed st)) = nat 3 \<and>
     (cur_best st = PosInf \<or> cur_best st \<in> set (val_losses (printed st)))"
proof -
  from demo_run_3 obtain st where
    run: "demo_run (Finite 5) 3 = Inr st" and
    V: "val_losses (printed st) = [Finite 5, Finite 1, Finite 5]" and
    b: "cur_best st = Finite 1"
    by blast
  note t = best_val_loss_running_minimum [OF run [unfolded demo_run_def]]
  have l: "length (val_losses (printed st)) = nat 3" using t by (elim conjE)
  have a: "cur_best st = PosInf \<or> cur_best st \<in> set (val_losses (printed st))"
    using t by (elim conjE)
  from run V b l a show ?thesis by blast
qed

theorem first_epoch_not_saved_counterexample:
  "map_sum id summary (demo_run NaN 1) = Inr (PosInf, [NaN], []) \<and>
   map_sum id summary (demo_run PosInf 1) = Inr (PosInf, [PosInf], [])"
  by (simp add: demo_run_defs summary_def)

text \<open>
  When every average validation loss of the run is finite, the saving condition is the
  one the comparison with the previous epochs gives.
\<close>

lemma save_iff_below_all_previous_when_finite:
  assumes "train_model lib model trl vll num_epochs sp disk = Inr st"
    and "\<forall>v \<in> set (val_losses (printed st)). \<exists>a. v = Finite a"
    and "k < nat num_epochs"
  shows "\<exists>s s'.
       train_model lib model trl vll (int k) sp disk = Inr s \<and>
       train_epoch lib trl vll sp (int k) s = Inr s' \<and>
       (saved s' \<noteq> saved s \<longleftrightarrow>
          (\<forall>j<k. float_lt (val_losses (printed st) ! k) (val_losses (printed st) ! j)))"
proof -
  let ?V = "val_losses (printed st)"
  from running_minimum_facts [OF assms(1)] assms(3) obtain s s' where
    len: "length ?V = nat num_epochs" and
    s: "train_model lib model trl vll (int k) sp disk = Inr s"
       "train_epoch lib trl vll sp (int k) s = Inr s'" and
    iff: "saved s' \<noteq> saved s \<longleftrightarrow>
          float_lt (?V ! k) PosInf \<and> (\<forall>j<k. ?V ! j = NaN \<or> float_lt (?V ! k) (?V ! j))"
    by blast
  have fin: "\<exists>a. ?V ! j = Finite a" if "j \<le> k" for j
    using assms(2,3) len that by (auto simp del: ex_simps)
  from fin [of k] have "float_lt (?V ! k) PosInf" by auto
  moreover have "?V ! j \<noteq> NaN" if "j < k" for j
    using fin [of j] that by auto
  ultimately have "saved s' \<noteq> saved s \<longleftrightarrow> (\<forall>j<k. float_lt (?V ! k) (?V ! j))"
    using iff by auto
  with s show ?thesis by blast
qed

section \<open>Double precision arithmetic on the example fractions\<close>

lemma bits_facts:
  "bits 1 = 1" "bits 3 = 2" "bits 7 = 3" "bits 10 = 4"
  "bits 4503599627370497 = 53" "bits 5146971002709139 = 53" "bits 5404319552844595 = 53"
  "bits 6305039478318694 = 53" "bits 6755399441055744 = 53" "bits 7205759403792794 = 53"
  "bits 12610078956637389 = 54" "bits 36028797018963973 = 56" "bits 54043195528445950 = 56"
  "bits 57646075230342349 = 56" "bits 82351536043346223 = 57" "bits 86469112845513523 = 57"
  by (simp_all add: bits.simps)

lemmas double_defs =
  double_of_ratio_def div_round_def fl_def round_shift_def double_of_nat_def Let_def bits_facts

lemma ratio_3_10: "double_of_ratio 3 10 = Double 5404319552844595 (- 54)"
  by (simp add: double_defs)

lemma ratio_1_10: "double_of_ratio 1 10 = Double 7205759403792794 (- 56)"
  by (simp add: double_defs)

lemma split_sizes_ten: "split_sizes (Double 5404319552844595 (- 54)) 10 = Inr (7, 3)"
  by (simp add: split_sizes_def double_defs)

lemma val_fraction_ten:
  "double_truediv (Double 7205759403792794 (- 56))
     (double_sub (Double 1 0) (Double 5404319552844595 (- 54))) =
   Inr (Double 5146971002709139 (- 55))"
  by (simp add: double_defs)

lemma split_sizes_seven: "split_sizes (Double 5146971002709139 (- 55)) 7 = Inr (5, 2)"
  by (simp add: split_sizes_def double_defs)

section \<open>Splitting the data set\<close>

text \<open>A value that fits a double is not changed by the rounding.\<close>

lemma fl_exact:
  assumes "m \<noteq> 0" and "bits \<bar>m\<bar> \<le> 53" and "- 1074 \<le> e" and "bits \<bar>m\<bar> + e \<le> 1024"
  shows "fl m e = Double m e"
proof -
  have "max (bits \<bar>m\<bar> - 53) (- 1074 - e) \<le> 0" using assms by simp
  moreover have "sgn m * \<bar>m\<bar> = m" by (simp add: sgn_if)
  ultimately show ?thesis using assms by (simp add: fl_def Let_def)
qed

lemma split_sizes_Inr:
  assumes "split_sizes test_size n = Inr (n_train, n_test)"
  shows "\<exists>c. double_ceil (double_mul test_size (double_of_nat n)) = Inr c \<and> n_test = nat c"
    and "n_train = n - n_test" and "0 < n_train"
    and "\<not> double_le_zero test_size" and "\<not> double_ge_one test_size"
  using assms unfolding split_sizes_def
  by (auto simp: Let_def andthen_Inr_iff split: if_splits)

lemma zip_map_nth:
  assumes "length xs = n" and "length ys = n"
  shows "map (\<lambda>i. (xs ! i, ys ! i)) [0..<n] = zip xs ys"
  using assms by (intro nth_equalityI) simp_all

lemma zip_map_same: "zip (map f l) (map g l) = map (\<lambda>i. (f i, g i)) l"
  by (induction l) simp_all

lemma train_test_split_Inr:
  assumes split: "train_test_split perm xs ys test_size = Inr (xtr, xte, ytr, yte)"
    and perm: "mset (perm (length xs)) = mset [0..<length xs]"
  shows "mset (zip xtr ytr) + mset (zip xte yte) = mset (zip xs ys) \<and>
         length ys = length xs \<and>
         length ytr = length xtr \<and> length yte = length xte \<and>
         split_sizes test_size (length xs) = Inr (length xtr, length xte) \<and>
         length xtr = length xs - length xte"
proof -
  let ?n = "length xs"
  let ?p = "perm ?n"
  let ?f = "\<lambda>i. (xs ! i, ys ! i)"
  from split have len: "length ys = ?n"
    unfolding train_test_split_def by (auto split: if_splits)
  from split len obtain n_train n_test where
    sz: "split_sizes test_size ?n = Inr (n_train, n_test)" and
    r: "xtr = map (nth xs) (take n_train (drop n_test ?p))"
       "xte = map (nth xs) (take n_test ?p)"
       "ytr = map (nth ys) (take n_train (drop n_test ?p))"
       "yte = map (nth ys) (take n_test ?p)"
    unfolding train_test_split_def by (auto simp: andthen_Inr_iff Let_def)
  note ntr = split_sizes_Inr(2) [OF sz] and pos = split_sizes_Inr(3) [OF sz]
  have lp: "length ?p = ?n"
    using arg_cong [OF perm, of size] by simp
  have all: "take n_train (drop n_test ?p) = drop n_test ?p"
    using lp ntr by simp
  have le: "n_test \<le> ?n" using ntr pos by simp
  have "mset (zip xtr ytr) + mset (zip xte yte) =
        mset (map ?f (drop n_test ?p)) + mset (map ?f (take n_test ?p))"
    unfolding r all by (simp only: zip_map_same)
  also have "\<dots> = mset (map ?f (take n_test ?p @ drop n_test ?p))"
    by (simp only: map_append mset_append add.commute)
  also have "\<dots> = image_mset ?f (mset ?p)"
    by (simp only: append_take_drop_id mset_map)
  also have "\<dots> = mset (map ?f [0..<?n])"
    unfolding perm by simp
  also have "\<dots> = mset (zip xs ys)"
    using len by (simp only: zip_map_nth [OF refl])
  finally have m: "mset (zip xtr ytr) + mset (zip xte yte) = mset (zip xs ys)" .
  have lte: "length xte = n_test" unfolding r using lp le by simp
  have ltr: "length xtr = ?n - n_test" unfolding r all using lp by simp
  have "length ytr = length xtr" "length yte = length xte" unfolding r by simp_all
  moreover have "split_sizes test_size ?n = Inr (length xtr, length xte)"
    using sz ntr lte ltr by simp
  ultimately show ?thesis using m len lte ltr by simp
qed

lemma mset_fst_zip: "length ys = length xs \<Longrightarrow> image_mset fst (mset (zip xs ys)) = mset xs"
proof -
  assume "length ys = length xs"
  then have "map fst (zip xs ys) = xs" by simp
  then have "mset (map fst (zip xs ys)) = mset xs" by simp
  then show ?thesis by (simp only: mset_map)
qed

text \<open>
  C10. Let the shuffle of \<open>train_test_split\<close> be a permutation of the indices. Then
  \<open>create_datasets\<close> partitions the (file path, label) pairs \<open>load_data\<close> returns: the
  pairs of the training, validation and test sets together are the pairs of \<open>load_data\<close>,
  each as often as there (once each on a tree that lists each name once), so no pair is
  duplicated or dropped and every path keeps its label. The test set holds
  \<open>ceil(test_size * n)\<close> of the \<open>n\<close> pairs, the validation set
  \<open>ceil(val_size / (1 - test_size) * (n - n_test))\<close> and the training set the rest, where
  the products, the difference and the quotient are the rounded ones of double precision
  arithmetic.
\<close>

theorem create_datasets_partition:
  assumes run: "create_datasets fs perm root_dir test_size val_size =
                  Inr (train_dataset, val_dataset, test_dataset, label_map)"
    and perm: "\<forall>n. mset (perm n) = mset [0..<n]"
  shows "\<exists>paths labs.
     load_data fs root_dir = Inr (paths, labs, label_map) \<and>
     mset (zip (file_paths train_dataset) (labels train_dataset)) +
       mset (zip (file_paths val_dataset) (labels val_dataset)) +
       mset (zip (file_paths test_dataset) (labels test_dataset)) = mset (zip paths labs) \<and>
     length (labels train_dataset) = length (file_paths train_dataset) \<and>
     length (labels val_dataset) = length (file_paths val_dataset) \<and>
     length (labels test_dataset) = length (file_paths test_dataset) \<and>
     (\<exists>c. double_ceil (double_mul test_size (double_of_nat (length paths))) = Inr c \<and>
        length (file_paths test_dataset) = nat c) \<and>
     (\<exists>val_fraction c.
        double_truediv val_size (double_sub (Double 1 0) test_size) = Inr val_fraction \<and>
        double_ceil (double_mul val_fraction
          (double_of_nat (length paths - length (file_paths test_dataset)))) = Inr c \<and>
        length (file_paths val_dataset) = nat c) \<and>
     length (file_paths train_dataset) =
       length paths - length (file_paths test_dataset) - length (file_paths val_dataset) \<and>
     (wf_node fs \<longrightarrow>
        distinct (file_paths train_dataset @ file_paths val_dataset @ file_paths test_dataset))"
proof -
  from run obtain paths labs tr1 te ltr1 lte vf tr va ltr lva where
    ld: "load_data fs root_dir = Inr (paths, labs, label_map)" and
    s1: "train_test_split perm paths labs test_size = Inr (tr1, te, ltr1, lte)" and
    dv: "double_truediv val_size (double_sub (Double 1 0) test_size) = Inr vf" and
    s2: "train_test_split perm tr1 ltr1 vf = Inr (tr, va, ltr, lva)" and
    ds: "train_dataset = \<lparr>file_paths = tr, labels = ltr\<rparr>"
        "val_dataset = \<lparr>file_paths = va, labels = lva\<rparr>"
        "test_dataset = \<lparr>file_paths = te, labels = lte\<rparr>"
    unfolding create_datasets_def by (auto simp: andthen_Inr_iff)
  from perm have p1: "mset (perm (length paths)) = mset [0..<length paths]"
    and p2: "mset (perm (length tr1)) = mset [0..<length tr1]" by blast+
  from train_test_split_Inr [OF s1 p1] have
    m1: "mset (zip tr1 ltr1) + mset (zip te lte) = mset (zip paths labs)" and
    l0: "length labs = length paths" and
    l1: "length ltr1 = length tr1" "length lte = length te" and
    z1: "split_sizes test_size (length paths) = Inr (length tr1, length te)" and
    n1: "length tr1 = length paths - length te"
    by blast+
  from train_test_split_Inr [OF s2 p2] have
    m2: "mset (zip tr ltr) + mset (zip va lva) = mset (zip tr1 ltr1)" and
    l2: "length ltr = length tr" "length lva = length va" and
    z2: "split_sizes vf (length tr1) = Inr (length tr, length va)" and
    n2: "length tr = length tr1 - length va"
    by blast+
  have m: "mset (zip tr ltr) + mset (zip va lva) + mset (zip te lte) = mset (zip paths labs)"
    using m1 m2 by simp
  from split_sizes_Inr(1) [OF z1] have
    ct: "\<exists>c. double_ceil (double_mul test_size (double_of_nat (length paths))) = Inr c \<and>
           length te = nat c" .
  from split_sizes_Inr(1) [OF z2] n1 have
    "\<exists>c. double_ceil (double_mul vf (double_of_nat (length paths - length te))) = Inr c \<and>
           length va = nat c" by simp
  with dv have cv: "\<exists>val_fraction c.
        double_truediv val_size (double_sub (Double 1 0) test_size) = Inr val_fraction \<and>
        double_ceil (double_mul val_fraction (double_of_nat (length paths - length te))) = Inr c \<and>
        length va = nat c" by blast
  have nt: "length tr = length paths - length te - length va"
    using n2 n1 by simp
  have d: "distinct (tr @ va @ te)" if wf: "wf_node fs"
  proof -
    have "mset (tr @ va @ te) =
          image_mset fst (mset (zip tr ltr) + mset (zip va lva) + mset (zip te lte))"
      using l1 l2 by (simp add: mset_fst_zip)
    also have "\<dots> = mset paths"
      unfolding m using l0 by (rule mset_fst_zip)
    finally have "mset (tr @ va @ te) = mset paths" .
    then have "distinct (tr @ va @ te) = distinct paths"
      by (rule mset_eq_imp_distinct_iff)
    with load_data_paths_distinct [OF ld wf] show ?thesis by simp
  qed
  show ?thesis
    unfolding ds using ld m l1 l2 ct cv nt d
    by (intro exI [of _ paths] exI [of _ labs]) simp
qed

section \<open>The split of ten files\<close>

lemma ten_load_data:
  "load_data ten_tree [''data''] = Inr (ten_paths, [0, 0, 0, 0, 0, 0, 0, 0, 0, 0], [(''c'', 0)])"
  by (simp add: load_data_def listdir_def ten_tree_def ten_names_def ten_paths_def model_dir_def
      isdir_def isfile_def model_path_def enumerate_eq_zip upt_rec Let_def)

lemma ten_first_split:
  "train_test_split (upt 0) ten_paths [0, 0, 0, 0, 0, 0, 0, 0, 0, 0::nat]
     (Double 5404319552844595 (- 54)) =
   Inr (map (model_path [''data'', ''c''])
          [''m3'', ''m4'', ''m5'', ''m6'', ''m7'', ''m8'', ''m9''],
        map (model_path [''data'', ''c'']) [''m0'', ''m1'', ''m2''],
        [0, 0, 0, 0, 0, 0, 0], [0, 0, 0])"
proof -
  have len: "length ten_paths = 10" "length [0, 0, 0, 0, 0, 0, 0, 0, 0, 0::nat] = 10"
    by (simp_all add: ten_paths_def ten_names_def)
  have idx: "take 7 (drop 3 [0..<10]) = [3, 4, 5, 6, 7, 8, 9]" "take 3 [0..<10] = [0, 1, 2]"
    by (simp_all add: upt_rec)
  show ?thesis
    unfolding train_test_split_def len split_sizes_ten
    by (simp add: idx) (simp add: ten_paths_def ten_names_def)
qed

lemma ten_second_split:
  "train_test_split (upt 0)
     (map (model_path [''data'', ''c'']) [''m3'', ''m4'', ''m5'', ''m6'', ''m7'', ''m8'', ''m9''])
     [0, 0, 0, 0, 0, 0, 0::nat] (Double 5146971002709139 (- 55)) =
   Inr (map (model_path [''data'', ''c'']) [''m5'', ''m6'', ''m7'', ''m8'', ''m9''],
        map (model_path [''data'', ''c'']) [''m3'', ''m4''],
        [0, 0, 0, 0, 0], [0, 0])"
proof -
  have len: "length (map (model_path [''data'', ''c''])
       [''m3'', ''m4'', ''m5'', ''m6'', ''m7'', ''m8'', ''m9'']) = 7"
    "length [0, 0, 0, 0, 0, 0, 0::nat] = 7"
    by simp_all
  have idx: "take 5 (drop 2 [0..<7]) = [2, 3, 4, 5, 6]" "take 2 [0..<7] = [0, 1]"
    by (simp_all add: upt_rec)
  show ?thesis
    unfolding train_test_split_def len split_sizes_seven
    by (simp add: idx)
qed

lemma ten_split_eq: "ten_split = Inr (ten_train, ten_val, ten_test, [(''c'', 0)])"
  by (simp only: ten_split_def create_datasets_def ten_load_data ratio_3_10 ratio_1_10
      ten_first_split val_fraction_ten ten_second_split ten_train_def ten_val_def ten_test_def
      andthen.simps prod.case)

theorem create_datasets_partition_witness:
  "create_datasets ten_tree (upt 0) [''data''] (double_of_ratio 3 10) (double_of_ratio 1 10) =
     Inr (ten_train, ten_val, ten_test, [(''c'', 0)]) \<and>
   (\<forall>n. mset (upt 0 n) = mset [0..<n]) \<and>
   (\<exists>paths labs.
      load_data ten_tree [''data''] = Inr (paths, labs, [(''c'', 0)]) \<and>
      mset (zip (file_paths ten_train) (labels ten_train)) +
        mset (zip (file_paths ten_val) (labels ten_val)) +
        mset (zip (file_paths ten_test) (labels ten_test)) = mset (zip paths labs) \<and>
      (\<exists>c. double_ceil (double_mul (double_of_ratio 3 10) (double_of_nat (length paths))) = Inr c \<and>
         length (file_paths ten_test) = nat c))"
proof -
  have run: "create_datasets ten_tree (upt 0) [''data''] (double_of_ratio 3 10)
       (double_of_ratio 1 10) = Inr (ten_train, ten_val, ten_test, [(''c'', 0)])"
    using ten_split_eq by (simp only: ten_split_def)
  have perm: "\<forall>n. mset (upt 0 n) = mset [0..<n]" by simp
  from create_datasets_partition [OF run perm] run perm show ?thesis by blast
qed

theorem validation_fraction_counterexample:
  "map_sum id sizes
     (create_datasets ten_tree (upt 0) [''data''] (double_of_ratio 3 10) (double_of_ratio 1 10)) =
     Inr (5, 2, 3) \<and>
   load_data ten_tree [''data''] = Inr (ten_paths, [0, 0, 0, 0, 0, 0, 0, 0, 0, 0], [(''c'', 0)]) \<and>
   length ten_paths = 10 \<and>
   real 3 = 3 / 10 * real 10 \<and>
   real 2 \<noteq> 1 / 10 * real 10"
proof -
  have "create_datasets ten_tree (upt 0) [''data''] (double_of_ratio 3 10)
       (double_of_ratio 1 10) = Inr (ten_train, ten_val, ten_test, [(''c'', 0)])"
    using ten_split_eq by (simp only: ten_split_def)
  then have "map_sum id sizes
     (create_datasets ten_tree (upt 0) [''data''] (double_of_ratio 3 10) (double_of_ratio 1 10)) =
     Inr (5, 2, 3)"
    by (simp add: sizes_def len_dataset_def ten_train_def ten_val_def ten_test_def)
  moreover have "length ten_paths = 10" by (simp add: ten_paths_def ten_names_def)
  moreover have "real 3 = 3 / 10 * real 10" "real 2 \<noteq> 1 / 10 * real 10" by simp_all
  ultimately show ?thesis using ten_load_data by (intro conjI)
qed

end
